theory Spec2Isabelle
  imports Complex_Main "HOL-Library.AList"
begin

section \<open>Python values\<close>

text \<open>
  Exceptions are values: every function that can raise returns \<open>error + 'a\<close>, with
  \<open>Inl\<close> carrying the exception class.
\<close>

datatype error =
  KeyError | ValueError | TypeError | AttributeError | FileNotFoundError | IndexError

text \<open>
  A numpy \<open>float64\<close> is modelled as an optional real: \<open>None\<close> is NaN, \<open>Some x\<close> a
  number. Rounding and infinities are not modelled, arithmetic on numbers is exact.
\<close>

type_synonym float64 = "real option"

definition f_sub :: "float64 \<Rightarrow> float64 \<Rightarrow> float64" where
  "f_sub a b = (case a of None \<Rightarrow> None
                | Some x \<Rightarrow> (case b of None \<Rightarrow> None | Some y \<Rightarrow> Some (x - y)))"

definition f_sq :: "float64 \<Rightarrow> float64" where
  "f_sq a = (case a of None \<Rightarrow> None | Some x \<Rightarrow> Some (x ^ 2))"

definition np_sqrt :: "float64 \<Rightarrow> float64" where
  "np_sqrt a = (case a of None \<Rightarrow> None
                | Some x \<Rightarrow> (if x < 0 then None else Some (sqrt x)))"

definition f_gt :: "float64 \<Rightarrow> real \<Rightarrow> bool" where
  \<comment> \<open>\<open>a > t\<close>: every comparison with NaN is false\<close>
  "f_gt a t = (case a of None \<Rightarrow> False | Some x \<Rightarrow> x > t)"

definition series_mean :: "real list \<Rightarrow> float64" where
  \<comment> \<open>\<open>np.mean\<close> of a pandas Series: NaN for the empty Series\<close>
  "series_mean xs = (if xs = [] then None else Some (sum_list xs / real (length xs)))"

definition np_mean :: "float64 list \<Rightarrow> float64" where
  \<comment> \<open>\<open>np.mean\<close> of a Python list of floats: NaN when empty or when an item is NaN\<close>
  "np_mean xs = (if xs = [] \<or> None \<in> set xs then None
                 else Some (sum_list (map the xs) / real (length xs)))"

definition np_min :: "float64 list \<Rightarrow> error + float64" where
  \<comment> \<open>\<open>np.min\<close>: raises on the empty sequence, propagates NaN\<close>
  "np_min xs = (if xs = [] then Inl ValueError
                else if None \<in> set xs then Inr None
                else Inr (Some (Min (set (map the xs)))))"

definition np_max :: "float64 list \<Rightarrow> error + float64" where
  "np_max xs = (if xs = [] then Inl ValueError
                else if None \<in> set xs then Inr None
                else Inr (Some (Max (set (map the xs)))))"

fun first_nan :: "float64 list \<Rightarrow> nat option" where
  "first_nan [] = None"
| "first_nan (x # xs) =
     (case x of None \<Rightarrow> Some 0
      | Some _ \<Rightarrow> (case first_nan xs of None \<Rightarrow> None | Some i \<Rightarrow> Some (Suc i)))"

fun argmin_loop :: "real list \<Rightarrow> nat \<Rightarrow> real \<Rightarrow> nat \<Rightarrow> nat" where
  \<comment> \<open>remaining items, their index, the least value so far and its index\<close>
  "argmin_loop [] i mp best = best"
| "argmin_loop (x # xs) i mp best =
     (if x < mp then argmin_loop xs (Suc i) x i else argmin_loop xs (Suc i) mp best)"

definition np_argmin :: "float64 list \<Rightarrow> error + nat" where
  \<comment> \<open>\<open>np.argmin\<close>: raises on the empty sequence; the first NaN wins; otherwise the
      first occurrence of the least value\<close>
  "np_argmin xs =
     (case xs of [] \<Rightarrow> Inl ValueError
      | y # ys \<Rightarrow>
          (case first_nan xs of Some i \<Rightarrow> Inr i
           | None \<Rightarrow> Inr (argmin_loop (map the ys) 1 (the y) 0)))"

definition py_index :: "'a list \<Rightarrow> nat \<Rightarrow> error + 'a" where
  "py_index xs i = (if i < length xs then Inr (xs ! i) else Inl IndexError)"

fun mapE :: "('a \<Rightarrow> error + 'b) \<Rightarrow> 'a list \<Rightarrow> error + 'b list" where
  \<comment> \<open>a comprehension whose body can raise: the first exception ends it\<close>
  "mapE f [] = Inr []"
| "mapE f (x # xs) =
     (case f x of Inl e \<Rightarrow> Inl e
      | Inr y \<Rightarrow> (case mapE f xs of Inl e \<Rightarrow> Inl e | Inr ys \<Rightarrow> Inr (y # ys)))"

section \<open>Reading Sets\<close>

record reading =
  Latitude :: real
  Longitude :: real
  ValidTime :: int
  PM25 :: real

record aqs_reading = reading +
  AQSID :: string

section \<open>Forecast entities and the daily aggregator (daydataclass.py)\<close>

record date =
  year :: nat
  month :: nat
  day :: nat

datatype forecast_class =
  AirNowForecast | CAMSForecast | GEOSCFForecast | NAQFCForecast | HRRRForecast

record 'df Forecast =
  cls :: forecast_class
  u_location :: string
  date_of :: date
  data_directory :: string
  u_name :: string
  u_data :: "'df option"
  u_location_data :: "'df option"

record DailyData =
  dd_date :: date
  location_name :: string
  dd_data_directory :: string
  u_forecasts :: "string list option"

definition new_forecast :: "forecast_class \<Rightarrow> string \<Rightarrow> DailyData \<Rightarrow> 'df Forecast" where
  \<comment> \<open>the dataclass constructor called with (location, date, data directory)\<close>
  "new_forecast c n d =
     \<lparr>cls = c, u_location = location_name d, date_of = dd_date d,
      data_directory = dd_data_directory d, u_name = n, u_data = None, u_location_data = None\<rparr>"

definition build_forecast :: "DailyData \<Rightarrow> string \<Rightarrow> error + 'df Forecast" where
  "build_forecast d forecast =
     (if forecast = ''airnow'' then Inr (new_forecast AirNowForecast ''airnow'' d)
      else if forecast = ''hrrr'' then Inr (new_forecast HRRRForecast ''hrrr'' d)
      else if forecast = ''cams'' then Inr (new_forecast CAMSForecast ''cams'' d)
      else if forecast = ''geoscf'' then Inr (new_forecast GEOSCFForecast ''geoscf'' d)
      else if forecast = ''naqfc'' then Inr (new_forecast NAQFCForecast ''naqfc'' d)
      else Inl ValueError)"

fun build_all ::
  "DailyData \<Rightarrow> string list \<Rightarrow> (string \<times> 'df Forecast) list
     \<Rightarrow> error + (string \<times> 'df Forecast) list" where
  \<comment> \<open>the dict comprehension: keys keep the place of their first insertion\<close>
  "build_all d [] acc = Inr acc"
| "build_all d (n # ns) acc =
     (case build_forecast d n of Inl e \<Rightarrow> Inl e
      | Inr f \<Rightarrow> build_all d ns (AList.update n f acc))"

definition forecasts :: "DailyData \<Rightarrow> error + (string \<times> 'df Forecast) list" where
  \<comment> \<open>a property: every access builds a new dict; iterating over \<open>None\<close> raises\<close>
  "forecasts d =
     (case u_forecasts d of None \<Rightarrow> Inl TypeError | Some ns \<Rightarrow> build_all d ns [])"

definition dict_pop :: "('k \<times> 'v) list \<Rightarrow> 'k \<Rightarrow> error + ('v \<times> ('k \<times> 'v) list)" where
  "dict_pop m k =
     (case map_of m k of None \<Rightarrow> Inl KeyError
      | Some v \<Rightarrow> Inr (v, AList.delete k m))"

section \<open>Metrics (metrics.py)\<close>

text \<open>
  A metric reads each entity's \<open>location_data\<close>; the frame that property yields for
  an entity is the parameter \<open>ld\<close>. Only the columns ValidTime and PM25 are read.
\<close>

definition hours_to_include :: "int list" where
  "hours_to_include = [13..35]"

definition persistence_hour :: int where
  "persistence_hour = 11"

definition threshold :: real where
  "threshold = 35"

definition hour_mean :: "reading list \<Rightarrow> int \<Rightarrow> float64" where
  \<comment> \<open>\<open>np.mean(df.loc[df.ValidTime == h].PM25)\<close>\<close>
  "hour_mean df h = series_mean (map PM25 (filter (\<lambda>r. ValidTime r = h) df))"

definition hourly :: "reading list \<Rightarrow> int list \<Rightarrow> float64 list" where
  "hourly df hours = map (hour_mean df) hours"

definition rms :: "float64 list \<Rightarrow> float64" where
  "rms errs = np_sqrt (np_mean (map f_sq errs))"

definition RMSE_call ::
  "int list \<Rightarrow> int \<Rightarrow> ('df Forecast \<Rightarrow> reading list) \<Rightarrow> DailyData
     \<Rightarrow> error + (string \<times> float64) list" where
  "RMSE_call hours phour ld day_data =
     (case forecasts day_data of Inl e \<Rightarrow> Inl e
      | Inr fs0 \<Rightarrow>
     (case dict_pop fs0 ''airnow'' of Inl e \<Rightarrow> Inl e
      | Inr (airnow, _) \<Rightarrow>
     (let monitor_readings = ld airnow;
          observed = hourly monitor_readings hours
      in case forecasts day_data of Inl e \<Rightarrow> Inl e
         | Inr fs \<Rightarrow>
        (let predictions = map (\<lambda>(n, f). (n, hourly (ld f) hours)) fs;
             rmses = map (\<lambda>(n, predicted).
                        (n, rms (map (\<lambda>(ob, p). f_sub ob p) (zip observed predicted))))
                      predictions;
             persistence = hour_mean monitor_readings phour
         in Inr (AList.update ''persistence''
                   (rms (map (\<lambda>ob. f_sub ob persistence) observed)) rmses)))))"

definition MeanExcessExposure_call ::
  "int list \<Rightarrow> ('df Forecast \<Rightarrow> reading list) \<Rightarrow> DailyData
     \<Rightarrow> error + (string \<times> float64) list" where
  "MeanExcessExposure_call hours ld day_data =
     (case forecasts day_data of Inl e \<Rightarrow> Inl e
      | Inr fs0 \<Rightarrow>
     (case dict_pop fs0 ''airnow'' of Inl e \<Rightarrow> Inl e
      | Inr (airnow, _) \<Rightarrow>
     (let monitor_readings = ld airnow;
          observed = hourly monitor_readings hours
      in case forecasts day_data of Inl e \<Rightarrow> Inl e
         | Inr fs \<Rightarrow>
        (let predictions = map (\<lambda>(n, f). (n, hourly (ld f) hours)) fs
         in case mapE (\<lambda>(n, predicted).
                    case np_argmin predicted of Inl e \<Rightarrow> Inl e | Inr i \<Rightarrow> Inr (n, i))
                  predictions of Inl e \<Rightarrow> Inl e
            | Inr best_predicted_hours \<Rightarrow>
           (case mapE (\<lambda>(n, best_predicted_hour).
                      case py_index observed best_predicted_hour of Inl e \<Rightarrow> Inl e
                      | Inr ob \<Rightarrow> (case np_min observed of Inl e \<Rightarrow> Inl e
                                   | Inr m \<Rightarrow> Inr (n, f_sub ob m)))
                    best_predicted_hours of Inl e \<Rightarrow> Inl e
            | Inr excess_exposures \<Rightarrow>
              (case np_min observed of Inl e \<Rightarrow> Inl e
               | Inr m \<Rightarrow> Inr (AList.update ''persistence''
                                 (f_sub (np_mean observed) m) excess_exposures)))))))"

definition IsSmokeDay_call ::
  "real \<Rightarrow> int list \<Rightarrow> int \<Rightarrow> ('df Forecast \<Rightarrow> reading list) \<Rightarrow> DailyData
     \<Rightarrow> error + (string \<times> bool) list" where
  "IsSmokeDay_call thr hours phour ld day_data =
     (case forecasts day_data of Inl e \<Rightarrow> Inl e
      | Inr fs0 \<Rightarrow>
     (case dict_pop fs0 ''airnow'' of Inl e \<Rightarrow> Inl e
      | Inr (airnow, _) \<Rightarrow>
     (let monitor_readings = ld airnow;
          observed = hourly monitor_readings hours
      in case forecasts day_data of Inl e \<Rightarrow> Inl e
         | Inr fs \<Rightarrow>
        (let predictions = map (\<lambda>(n, f). (n, hourly (ld f) hours)) fs;
             persistence = hour_mean monitor_readings phour
         in case np_max observed of Inl e \<Rightarrow> Inl e
            | Inr max_observed \<Rightarrow>
           (case mapE (\<lambda>(n, predicted).
                      case np_max predicted of Inl e \<Rightarrow> Inl e | Inr m \<Rightarrow> Inr (n, m))
                    predictions of Inl e \<Rightarrow> Inl e
            | Inr max_predictions \<Rightarrow>
              (let max_persistence = persistence;
                   results = map (\<lambda>(n, max_value). (n, f_gt max_value thr)) max_predictions
               in Inr (AList.update ''observed'' (f_gt max_observed thr)
                        (AList.update ''persistence'' (f_gt max_persistence thr)
                           results))))))))"

text \<open>Auxiliary notions used to state the properties of the metrics.\<close>

definition known_forecasts :: "string list" where
  "known_forecasts = [''airnow'', ''hrrr'', ''cams'', ''geoscf'', ''naqfc'']"

definition class_of :: "string \<Rightarrow> forecast_class" where
  "class_of n = (if n = ''airnow'' then AirNowForecast else if n = ''hrrr'' then HRRRForecast
     else if n = ''cams'' then CAMSForecast else if n = ''geoscf'' then GEOSCFForecast
     else NAQFCForecast)"

definition entity :: "DailyData \<Rightarrow> string \<Rightarrow> 'df Forecast" where
  "entity d n = new_forecast (class_of n) n d"









definition example_day :: DailyData where
  "example_day =
     \<lparr>dd_date = \<lparr>year = 2023, month = 7, day = 1\<rparr>, location_name = ''Boston, MA'',
      dd_data_directory = ''data'', u_forecasts = Some [''airnow'', ''hrrr'']\<rparr>"

definition row :: "int \<Rightarrow> real \<Rightarrow> reading" where
  "row h v = \<lparr>Latitude = 42.36, Longitude = -71.06, ValidTime = h, PM25 = v\<rparr>"

definition ld_mee :: "'df Forecast \<Rightarrow> reading list" where
  "ld_mee f = (if u_name f = ''airnow'' then [row 13 50, row 14 10, row 15 30]
               else [row 13 5, row 14 40, row 15 20])"



definition unsupported_day :: DailyData where
  "unsupported_day = example_day\<lparr>u_forecasts := Some [''hrrr'', ''purpleair'']\<rparr>"

definition no_airnow_day :: DailyData where
  "no_airnow_day = example_day\<lparr>u_forecasts := Some [''hrrr'', ''cams'']\<rparr>"

section \<open>Paths below the data directory (daydataclass.py, experiment.py)\<close>

text \<open>
  A file system is a map from paths to file contents, a path being the list of the
  components given to \<open>Path\<close>. Calendar dates are formatted with four digits for the
  year and two for month and day, as \<open>isoformat\<close> and the \<open>:04\<close>, \<open>:02\<close> format
  specs do.
\<close>

type_synonym path = "string list"

definition digit :: "nat \<Rightarrow> char" where
  "digit n = ''0123456789'' ! n"

fun digits :: "nat \<Rightarrow> string" where
  "digits n = (if n < 10 then [digit n] else digits (n div 10) @ [digit (n mod 10)])"

declare digits.simps [simp del]

definition zfill :: "nat \<Rightarrow> string \<Rightarrow> string" where
  "zfill w s = replicate (w - length s) (CHR ''0'') @ s"

definition isoformat :: "date \<Rightarrow> string" where
  "isoformat d =
     zfill 4 (digits (year d)) @ ''-'' @ zfill 2 (digits (month d)) @ ''-'' @ zfill 2 (digits (day d))"

definition datapath :: "'df Forecast \<Rightarrow> path" where
  "datapath e =
     [data_directory e, u_name e, zfill 4 (digits (year (date_of e))),
      zfill 2 (digits (month (date_of e))), isoformat (date_of e) @ ''.csv'']"

section \<open>Saving results (experiment.py)\<close>

text \<open>
  \<open>json_tricks.dump\<close> serialises the whole object to a string first and opens the file
  only afterwards; the serialiser \<open>dumps\<close> is a parameter, raising ValueError for a NaN.
\<close>

record Experiment =
  location :: string
  start_date :: date
  end_date :: date
  results_directory :: string
  figures_directory :: string
  exp_data_directory :: string
  exp_forecasts :: "string list option"

definition result_filepath :: "Experiment \<Rightarrow> date \<Rightarrow> path" where
  "result_filepath E d = [results_directory E, location E, isoformat d @ ''.json'']"

definition json_tricks_dump ::
  "('r \<Rightarrow> error + string) \<Rightarrow> 'r \<Rightarrow> path \<Rightarrow> (path \<rightharpoonup> string)
     \<Rightarrow> error + (path \<rightharpoonup> string)" where
  "json_tricks_dump dumps obj fp fs =
     (case dumps obj of Inl err \<Rightarrow> Inl err | Inr txt \<Rightarrow> Inr (fs(fp \<mapsto> txt)))"

fun save_results ::
  "('r \<Rightarrow> error + string) \<Rightarrow> Experiment \<Rightarrow> (date \<times> 'r) list \<Rightarrow> (path \<rightharpoonup> string)
     \<Rightarrow> error + (path \<rightharpoonup> string)" where
  "save_results dumps E [] fs = Inr fs"
| "save_results dumps E ((d, day_results) # rest) fs =
     (case json_tricks_dump dumps day_results (result_filepath E d) fs of
        Inl err \<Rightarrow> (if err = ValueError then save_results dumps E rest fs else Inl err)
      | Inr fs' \<Rightarrow> save_results dumps E rest fs')"

definition valid_date :: "date \<Rightarrow> bool" where
  "valid_date d \<longleftrightarrow>
     1 \<le> year d \<and> year d \<le> 9999 \<and> 1 \<le> month d \<and> month d \<le> 12 \<and> 1 \<le> day d \<and> day d \<le> 31"

definition digit_val :: "char \<Rightarrow> nat" where
  "digit_val c = length (takeWhile (\<lambda>x. x \<noteq> c) ''0123456789'')"

definition val_of :: "string \<Rightarrow> nat" where
  "val_of s = foldl (\<lambda>a c. 10 * a + digit_val c) 0 s"

definition example_dumps :: "(string \<times> float64) list \<Rightarrow> error + string" where
  "example_dumps r = (if None \<in> snd ` set r then Inl ValueError else Inr ''{}'')"

definition example_experiment :: Experiment where
  "example_experiment =
     \<lparr>location = ''Boston, MA'', start_date = \<lparr>year = 2023, month = 7, day = 2\<rparr>,
      end_date = \<lparr>year = 2023, month = 7, day = 3\<rparr>, results_directory = ''results'',
      figures_directory = ''figures'', exp_data_directory = ''data'', exp_forecasts = None\<rparr>"

definition example_results :: "(date \<times> (string \<times> float64) list) list" where
  "example_results =
     [(\<lparr>year = 2023, month = 7, day = 2\<rparr>, [(''hrrr'', None), (''persistence'', Some 20)]),
      (\<lparr>year = 2023, month = 7, day = 3\<rparr>, [(''hrrr'', Some 40), (''persistence'', Some 20)])]"

section \<open>The Spatial Matcher (data_downloads/airnow.py, data_downloads/hrrr.py)\<close>

text \<open>
  Coordinates and distances are real numbers. The haversine formula is the one of
  scikit-learn's haversine metric, on (latitude, longitude) in radians. Two behaviours
  of the library are part of the model: its input validation (\<open>check_array\<close>) rejects
  an array with no rows with ValueError, and \<open>kneighbors\<close> raises ValueError when asked
  for more neighbours than there are fitted points. \<open>kneighbors\<close> ranks the fitted
  points by distance to the query; points at equal distance are ranked in row order
  here (the library leaves their order open, and no property below depends on it).
  \<open>great_circle_km\<close> is the distance in kilometres between a target and a reading's point.
\<close>

definition radians :: "real \<Rightarrow> real" where
  "radians x = x * pi / 180"

definition haversine :: "real \<times> real \<Rightarrow> real \<times> real \<Rightarrow> real" where
  "haversine x1 x2 =
     (let sin_0 = sin (0.5 * (fst x1 - fst x2));
          sin_1 = sin (0.5 * (snd x1 - snd x2))
      in 2 * arcsin (sqrt (sin_0 * sin_0 + cos (fst x1) * cos (fst x2) * sin_1 * sin_1)))"

definition check_array :: "'a list \<Rightarrow> error + 'a list" where
  "check_array X = (if X = [] then Inl ValueError else Inr X)"

definition haversine_distances ::
  "(real \<times> real) list \<Rightarrow> (real \<times> real) list \<Rightarrow> error + real list list" where
  "haversine_distances X Y =
     (case check_array X of Inl e \<Rightarrow> Inl e
      | Inr X' \<Rightarrow> (case check_array Y of Inl e \<Rightarrow> Inl e
                    | Inr Y' \<Rightarrow> Inr (map (\<lambda>x. map (haversine x) Y') X')))"

definition latlons :: "'a reading_scheme list \<Rightarrow> (real \<times> real) list" where
  "latlons df = map (\<lambda>r. (radians (Latitude r), radians (Longitude r))) df"

definition find_nearby_predictions ::
  "'a reading_scheme list \<Rightarrow> real \<times> real \<Rightarrow> real \<Rightarrow> error + 'a reading_scheme list" where
  "find_nearby_predictions predictions coordinates max_distance =
     (let pred_latlons = latlons predictions;
          coords = [(radians (fst coordinates), radians (snd coordinates))]
      in case haversine_distances coords pred_latlons of Inl e \<Rightarrow> Inl e
         | Inr D \<Rightarrow>
             (let dists = map (\<lambda>d. 6371 * d) (D ! 0);
                  inds = filter (\<lambda>i. dists ! i \<le> max_distance) [0..<length dists]
              in Inr (map (\<lambda>i. predictions ! i) inds)))"

fun drop_duplicates :: "string list \<Rightarrow> 'a aqs_reading_scheme list \<Rightarrow> 'a aqs_reading_scheme list" where
  "drop_duplicates seen [] = []"
| "drop_duplicates seen (r # rs) =
     (if AQSID r \<in> set seen then drop_duplicates seen rs
      else r # drop_duplicates (AQSID r # seen) rs)"

definition fit :: "int \<Rightarrow> (real \<times> real) list \<Rightarrow> error + (real \<times> real) list" where
  "fit n_neighbors X = (if n_neighbors < 1 then Inl ValueError else check_array X)"

definition kneighbors ::
  "int \<Rightarrow> (real \<times> real) list \<Rightarrow> real \<times> real \<Rightarrow> error + (real list \<times> nat list)" where
  "kneighbors n_neighbors X q =
     (if n_neighbors > int (length X) then Inl ValueError
      else (let ranked = sort_key (\<lambda>i. haversine q (X ! i)) [0..<length X];
                indices = take (nat n_neighbors) ranked
            in Inr (map (\<lambda>i. haversine q (X ! i)) indices, indices)))"

definition find_nearby_monitors ::
  "'a aqs_reading_scheme list \<Rightarrow> real \<times> real \<Rightarrow> real \<Rightarrow> int
     \<Rightarrow> error + 'a aqs_reading_scheme list" where
  "find_nearby_monitors aqs_readings coordinates max_distance max_neighbors =
     (let aqs = drop_duplicates [] aqs_readings;
          monitor_latlons = latlons aqs;
          coords = (radians (fst coordinates), radians (snd coordinates))
      in case fit max_neighbors monitor_latlons of Inl e \<Rightarrow> Inl e
         | Inr neigh_fit \<Rightarrow>
        (case kneighbors max_neighbors neigh_fit coords of Inl e \<Rightarrow> Inl e
         | Inr (distances, indices) \<Rightarrow>
            (let good_inds = map snd (filter (\<lambda>(d, i). d * 6371 \<le> max_distance)
                                            (zip distances indices));
                 ids = map (\<lambda>i. AQSID (aqs ! i)) good_inds
             in Inr (filter (\<lambda>r. AQSID r \<in> set ids) aqs_readings))))"

definition great_circle_km :: "real \<times> real \<Rightarrow> 'a reading_scheme \<Rightarrow> real" where
  "great_circle_km P r =
     6371 * haversine (radians (fst P), radians (snd P)) (radians (Latitude r), radians (Longitude r))"

definition station :: "string \<Rightarrow> real \<Rightarrow> real \<Rightarrow> int \<Rightarrow> real \<Rightarrow> aqs_reading" where
  "station a la lo h v = \<lparr>Latitude = la, Longitude = lo, ValidTime = h, PM25 = v, AQSID = a\<rparr>"

text \<open>Example stations and grid cells on the meridian of the target.\<close>

definition boston :: "real \<times> real" where
  "boston = (42.36, -71.06)"

definition near_station :: aqs_reading where
  "near_station = station ''250250042'' 42.36 (-71.06) 13 12"

definition far_station :: aqs_reading where
  "far_station = station ''250092006'' 42.56 (-71.06) 13 30"

definition remote_station :: aqs_reading where
  "remote_station = station ''330150018'' 43.36 (-71.06) 13 8"

definition cell :: "real \<Rightarrow> real \<Rightarrow> int \<Rightarrow> real \<Rightarrow> reading" where
  "cell la lo h v = \<lparr>Latitude = la, Longitude = lo, ValidTime = h, PM25 = v\<rparr>"

definition near_cell :: reading where
  "near_cell = cell 42.36 (-71.06) 13 12"

definition far_cell :: reading where
  "far_cell = cell 42.56 (-71.06) 13 30"

definition remote_cell :: reading where
  "remote_cell = cell 43.36 (-71.06) 13 8"

section \<open>The Grid Index Codec (daydataclass.py, HRRRForecast)\<close>

text \<open>
  A DataFrame carries the points of its rows either in the columns Latitude and
  Longitude or in the column LatLonIdx; reading a column that the frame does not have
  raises AttributeError. The index file holds one (latitude, longitude) pair per line,
  written with six decimals; its content is the list of its lines. Index files are kept
  in a file system of their own: they lie directly in the data directory, where no cache
  file lies.

  \<open>round6\<close> stands for \<open>float(f"{x:.6f}")\<close> and for the \<open>%.6f\<close> of \<open>np.savetxt\<close>: the
  decimal with six places nearest to the number, a tie going to the even last digit
  (\<open>round_half_even\<close>). \<open>np.loadtxt\<close> gives a two-dimensional array only for two lines or
  more: an empty file gives an empty one-dimensional array and a single line a
  one-dimensional array of its two numbers, whose items cannot be indexed.
  \<open>list(set(...))\<close> lists the unique coordinate pairs in an order that depends on their
  hashes: it is the parameter \<open>set_list\<close>. \<open>encode_row\<close>, \<open>rounded_row\<close>, \<open>covered\<close>,
  \<open>wrap_index\<close>, \<open>decoded\<close> and \<open>index_holds\<close> are used to state the properties.
\<close>

record hrrr_row =
  LatLonIdx :: int
  idx_ValidTime :: int
  idx_PM25 :: real

datatype frame = Located "reading list" | Indexed "hrrr_row list"

datatype ndarray = Array1 "real list" | Array2 "(real \<times> real) list"

definition np_loadtxt :: "(real \<times> real) list \<Rightarrow> ndarray" where
  "np_loadtxt lines =
     (case lines of [] \<Rightarrow> Array1 [] | [l] \<Rightarrow> Array1 [fst l, snd l] | _ \<Rightarrow> Array2 lines)"

definition round_half_even :: "real \<Rightarrow> int" where
  "round_half_even x =
     (let f = \<lfloor>x\<rfloor>; d = x - of_int f
      in if d < 1 / 2 then f else if 1 / 2 < d then f + 1 else if even f then f else f + 1)"

definition round6 :: "real \<Rightarrow> real" where
  "round6 x = of_int (round_half_even (x * 1000000)) / 1000000"

definition latlon_idx_path :: "'df Forecast \<Rightarrow> path" where
  "latlon_idx_path e = [data_directory e, ''hrrr-latlon-idx.csv'']"

definition build_latlon_idx ::
  "((real \<times> real) list \<Rightarrow> (real \<times> real) list) \<Rightarrow> 'df Forecast
     \<Rightarrow> (path \<rightharpoonup> (real \<times> real) list) \<Rightarrow> frame \<Rightarrow> error + (path \<rightharpoonup> (real \<times> real) list)" where
  "build_latlon_idx set_list e fs prediction =
     (case prediction of
        Indexed _ \<Rightarrow> Inl AttributeError
      | Located rs \<Rightarrow>
          (let unique_latlons = set_list (map (\<lambda>r. (Latitude r, Longitude r)) rs)
           in Inr (fs(latlon_idx_path e \<mapsto>
                       map (\<lambda>(lat, lon). (round6 lat, round6 lon)) unique_latlons))))"

definition idx_lookup :: "(real \<times> real) list \<Rightarrow> (real \<times> real) \<rightharpoonup> nat" where
  "idx_lookup rows = fold (\<lambda>(i, latlon) m. m(latlon \<mapsto> i)) (enumerate 0 rows) Map.empty"

definition enumerate_rows :: "ndarray \<Rightarrow> error + (real \<times> real) list" where
  "enumerate_rows a =
     (case a of Array1 xs \<Rightarrow> (if xs = [] then Inr [] else Inl IndexError)
      | Array2 rows \<Rightarrow> Inr rows)"

definition latlon_to_idx_convert ::
  "((real \<times> real) list \<Rightarrow> (real \<times> real) list) \<Rightarrow> 'df Forecast
     \<Rightarrow> (path \<rightharpoonup> (real \<times> real) list) \<Rightarrow> frame
     \<Rightarrow> error + ((path \<rightharpoonup> (real \<times> real) list) \<times> frame)" where
  "latlon_to_idx_convert set_list e fs prediction =
     (case (if fs (latlon_idx_path e) = None then build_latlon_idx set_list e fs prediction
            else Inr fs) of
        Inl err \<Rightarrow> Inl err
      | Inr fs' \<Rightarrow>
          (case fs' (latlon_idx_path e) of
             None \<Rightarrow> Inl FileNotFoundError
           | Some lines \<Rightarrow>
               (case enumerate_rows (np_loadtxt lines) of
                  Inl err \<Rightarrow> Inl err
                | Inr rows \<Rightarrow>
                    (case prediction of
                       Indexed _ \<Rightarrow> Inl AttributeError
                     | Located rs \<Rightarrow>
                         (case mapE (\<lambda>r. case idx_lookup rows (round6 (Latitude r), round6 (Longitude r)) of
                                           None \<Rightarrow> Inl KeyError
                                         | Some i \<Rightarrow> Inr \<lparr>LatLonIdx = int i, idx_ValidTime = ValidTime r,
                                                         idx_PM25 = PM25 r\<rparr>) rs of
                            Inl err \<Rightarrow> Inl err
                          | Inr latlonidx \<Rightarrow> Inr (fs', Indexed latlonidx))))))"

definition np_getitem :: "'a list \<Rightarrow> int \<Rightarrow> error + 'a" where
  "np_getitem rows i =
     (let n = int (length rows)
      in if 0 \<le> i \<and> i < n then Inr (rows ! nat i)
         else if - n \<le> i \<and> i < 0 then Inr (rows ! nat (n + i))
         else Inl IndexError)"

definition idx_to_latlon_convert ::
  "'df Forecast \<Rightarrow> (path \<rightharpoonup> (real \<times> real) list) \<Rightarrow> frame \<Rightarrow> error + frame" where
  "idx_to_latlon_convert e fs prediction =
     (case fs (latlon_idx_path e) of
        None \<Rightarrow> Inl FileNotFoundError
      | Some lines \<Rightarrow>
          (case prediction of
             Located _ \<Rightarrow> Inl AttributeError
           | Indexed rs \<Rightarrow>
               (case np_loadtxt lines of
                  Array1 xs \<Rightarrow> Inl IndexError
                | Array2 rows \<Rightarrow>
                    (case mapE (\<lambda>r. case np_getitem rows (LatLonIdx r) of
                                      Inl err \<Rightarrow> Inl err
                                    | Inr latlon \<Rightarrow> Inr \<lparr>Latitude = fst latlon, Longitude = snd latlon,
                                                         ValidTime = idx_ValidTime r, PM25 = idx_PM25 r\<rparr>)
                            rs of
                       Inl err \<Rightarrow> Inl err
                     | Inr restored \<Rightarrow> Inr (Located restored)))))"

definition encode_row :: "(real \<times> real) list \<Rightarrow> reading \<Rightarrow> hrrr_row" where
  "encode_row rows r =
     \<lparr>LatLonIdx = int (the (idx_lookup rows (round6 (Latitude r), round6 (Longitude r)))),
      idx_ValidTime = ValidTime r, idx_PM25 = PM25 r\<rparr>"

definition rounded_row :: "reading \<Rightarrow> reading" where
  "rounded_row r = r\<lparr>Latitude := round6 (Latitude r), Longitude := round6 (Longitude r)\<rparr>"

definition covered :: "(real \<times> real) list \<Rightarrow> reading list \<Rightarrow> bool" where
  "covered rows prediction \<longleftrightarrow>
     list_all (\<lambda>r. (round6 (Latitude r), round6 (Longitude r)) \<in> set rows) prediction"

definition wrap_index :: "nat \<Rightarrow> int \<Rightarrow> nat" where
  \<comment> \<open>the line that an index addresses, a negative index counting from the end\<close>
  "wrap_index n i = (if 0 \<le> i then nat i else nat (int n + i))"

definition decoded :: "(real \<times> real) list \<Rightarrow> hrrr_row \<Rightarrow> reading" where
  "decoded lines r =
     \<lparr>Latitude = fst (lines ! wrap_index (length lines) (LatLonIdx r)),
      Longitude = snd (lines ! wrap_index (length lines) (LatLonIdx r)),
      ValidTime = idx_ValidTime r, PM25 = idx_PM25 r\<rparr>"

definition index_holds :: "(real \<times> real) list \<Rightarrow> hrrr_row list \<Rightarrow> bool" where
  \<comment> \<open>the index file has two lines or more and every LatLonIdx addresses one of them\<close>
  "index_holds lines rs \<longleftrightarrow>
     2 \<le> length lines \<and>
     list_all (\<lambda>r. - int (length lines) \<le> LatLonIdx r \<and> LatLonIdx r < int (length lines)) rs"

definition example_index :: "(real \<times> real) list" where
  "example_index = [(42.36, -71.06), (42.56, -71.06)]"

definition hrrr_entity :: "frame Forecast" where
  "hrrr_entity = entity example_day ''hrrr''"

section \<open>The raw-day cache of a Forecast entity (daydataclass.py)\<close>

text \<open>
  The world holds the cache files, the index files and the number of calls of a source
  adapter. What lies outside the code is gathered in an environment: the adapters
  (\<open>download_fn\<close> of the generic sources, which may return \<open>None\<close>, and
  \<open>hrrr_data_download\<close>), the writer \<open>to_csv\<close>, the parser behind \<open>pd.read_csv\<close> and the
  order of \<open>list(set(...))\<close>. \<open>download\<close> and \<open>data\<close> choose the method of the entity's
  class, as the call \<open>self.download()\<close> and the property access do.
\<close>

record 'csv world =
  files :: "path \<rightharpoonup> 'csv"
  index_files :: "path \<rightharpoonup> (real \<times> real) list"
  adapter_calls :: nat

record 'csv env =
  download_fn :: "frame Forecast \<Rightarrow> 'csv world \<Rightarrow> error + (frame option \<times> 'csv world)"
  hrrr_data_download :: "date \<Rightarrow> 'csv world \<Rightarrow> error + (frame \<times> 'csv world)"
  to_csv :: "frame \<Rightarrow> 'csv"
  read_csv :: "'csv \<Rightarrow> error + frame"
  list_of_set :: "(real \<times> real) list \<Rightarrow> (real \<times> real) list"

definition is_downloaded :: "'df Forecast \<Rightarrow> 'csv world \<Rightarrow> bool" where
  "is_downloaded e w \<longleftrightarrow> files w (datapath e) \<noteq> None"

definition GenericForecast_download ::
  "'csv env \<Rightarrow> frame Forecast \<Rightarrow> 'csv world \<Rightarrow> error + 'csv world" where
  "GenericForecast_download io e w =
     (if \<not> is_downloaded e w
      then (case download_fn io e (w\<lparr>adapter_calls := Suc (adapter_calls w)\<rparr>) of
              Inl err \<Rightarrow> Inl err
            | Inr (data, w') \<Rightarrow>
                (case data of
                   None \<Rightarrow> Inl AttributeError
                 | Some d \<Rightarrow> Inr (w'\<lparr>files := (files w')(datapath e \<mapsto> to_csv io d)\<rparr>)))
      else Inr w)"

definition HRRRForecast_download ::
  "'csv env \<Rightarrow> frame Forecast \<Rightarrow> 'csv world \<Rightarrow> error + 'csv world" where
  "HRRRForecast_download io e w =
     (if \<not> is_downloaded e w
      then (case hrrr_data_download io (date_of e) (w\<lparr>adapter_calls := Suc (adapter_calls w)\<rparr>) of
              Inl err \<Rightarrow> Inl err
            | Inr (data, w') \<Rightarrow>
                (case latlon_to_idx_convert (list_of_set io) e (index_files w') data of
                   Inl err \<Rightarrow> Inl err
                 | Inr (idx, d) \<Rightarrow>
                     Inr (w'\<lparr>files := (files w')(datapath e \<mapsto> to_csv io d), index_files := idx\<rparr>)))
      else Inr w)"

definition download :: "'csv env \<Rightarrow> frame Forecast \<Rightarrow> 'csv world \<Rightarrow> error + 'csv world" where
  "download io e w =
     (if cls e = HRRRForecast then HRRRForecast_download io e w
      else GenericForecast_download io e w)"

definition pd_read_csv ::
  "('csv \<Rightarrow> error + 'df) \<Rightarrow> path \<Rightarrow> 'csv world \<Rightarrow> error + 'df" where
  "pd_read_csv parse p w =
     (case files w p of None \<Rightarrow> Inl FileNotFoundError | Some c \<Rightarrow> parse c)"

definition Forecast_data ::
  "'csv env \<Rightarrow> frame Forecast \<Rightarrow> 'csv world \<Rightarrow> error + (frame \<times> frame Forecast \<times> 'csv world)" where
  "Forecast_data io e w =
     (case u_data e of
        None \<Rightarrow>
          (case download io e w of
             Inl err \<Rightarrow> Inl err
           | Inr w' \<Rightarrow>
               (case pd_read_csv (read_csv io) (datapath e) w' of
                  Inl err \<Rightarrow> Inl err
                | Inr d \<Rightarrow> Inr (d, e\<lparr>u_data := Some d\<rparr>, w')))
      | Some d \<Rightarrow> Inr (d, e, w))"

definition HRRRForecast_data ::
  "'csv env \<Rightarrow> frame Forecast \<Rightarrow> 'csv world \<Rightarrow> error + (frame \<times> frame Forecast \<times> 'csv world)" where
  "HRRRForecast_data io e w =
     (case u_data e of
        None \<Rightarrow>
          (case download io e w of
             Inl err \<Rightarrow> Inl err
           | Inr w' \<Rightarrow>
               (case pd_read_csv (read_csv io) (datapath e) w' of
                  Inl err \<Rightarrow> Inl err
                | Inr raw \<Rightarrow>
                    (case idx_to_latlon_convert e (index_files w') raw of
                       Inl err \<Rightarrow> Inl err
                     | Inr d \<Rightarrow> Inr (d, e\<lparr>u_data := Some d\<rparr>, w'))))
      | Some d \<Rightarrow> Inr (d, e, w))"

definition data ::
  "'csv env \<Rightarrow> frame Forecast \<Rightarrow> 'csv world \<Rightarrow> error + (frame \<times> frame Forecast \<times> 'csv world)" where
  "data io e w =
     (if cls e = HRRRForecast then HRRRForecast_data io e w else Forecast_data io e w)"

definition same_identity :: "'df Forecast \<Rightarrow> 'df Forecast \<Rightarrow> bool" where
  \<comment> \<open>two entities of the same class with the same name, date, location and data directory\<close>
  "same_identity e e' \<longleftrightarrow>
     cls e = cls e' \<and> u_name e = u_name e' \<and> date_of e = date_of e' \<and>
     u_location e = u_location e' \<and> data_directory e = data_directory e'"

text \<open>
  Example worlds: the adapters of \<open>offline\<close> always fail, so an access that succeeds has
  not called them.
\<close>

definition offline :: "frame env" where
  "offline =
     \<lparr>download_fn = (\<lambda>e w. Inl ValueError), hrrr_data_download = (\<lambda>d w. Inl ValueError),
      to_csv = (\<lambda>d. d), read_csv = Inr, list_of_set = remdups\<rparr>"

definition cached_rows :: "hrrr_row list" where
  "cached_rows =
     [\<lparr>LatLonIdx = 0, idx_ValidTime = 13, idx_PM25 = 12\<rparr>,
      \<lparr>LatLonIdx = 1, idx_ValidTime = 13, idx_PM25 = 30\<rparr>]"

definition cached_world :: "frame world" where
  "cached_world =
     \<lparr>files = [datapath hrrr_entity \<mapsto> Indexed cached_rows],
      index_files = [latlon_idx_path hrrr_entity \<mapsto> example_index], adapter_calls = 0\<rparr>"

definition unindexed_world :: "frame world" where
  "unindexed_world = cached_world\<lparr>index_files := Map.empty\<rparr>"

definition airnow_entity :: "frame Forecast" where
  "airnow_entity = entity example_day ''airnow''"

definition airnow_world :: "frame world" where
  "airnow_world =
     \<lparr>files = [datapath airnow_entity \<mapsto> Located [row 13 50, row 14 10]],
      index_files = Map.empty, adapter_calls = 0\<rparr>"

section \<open>Properties of the daily aggregator and the metrics\<close>

lemma build_forecast_known:
  "n \<in> set known_forecasts \<Longrightarrow> build_forecast d n = Inr (entity d n)"
  by (auto simp: known_forecasts_def build_forecast_def entity_def class_of_def)

lemma build_forecast_unknown:
  "n \<notin> set known_forecasts \<Longrightarrow> build_forecast d n = Inl ValueError"
  by (auto simp: known_forecasts_def build_forecast_def)

lemma build_all_known:
  "set ns \<subseteq> set known_forecasts \<Longrightarrow>
   build_all d ns acc = Inr (fold (\<lambda>n. AList.update n (entity d n)) ns acc)"
  by (induction ns arbitrary: acc) (simp_all add: build_forecast_known)

lemma build_all_unknown:
  "\<not> set ns \<subseteq> set known_forecasts \<Longrightarrow> build_all d ns acc = Inl ValueError"
proof (induction ns arbitrary: acc)
  case Nil
  then show ?case by simp
next
  case (Cons n ns)
  then show ?case
    by (cases "n \<in> set known_forecasts")
       (simp_all add: build_forecast_known build_forecast_unknown)
qed

lemma fold_update_map_of:
  "map_of (fold (\<lambda>n. AList.update n (g n)) ns acc) =
     (\<lambda>k. if k \<in> set ns then Some (g k) else map_of acc k)"
  by (induction ns arbitrary: acc) (auto simp: update_conv' fun_eq_iff)

lemma forecasts_known:
  "u_forecasts d = Some ns \<Longrightarrow> set ns \<subseteq> set known_forecasts \<Longrightarrow>
   \<exists>fs. forecasts d = Inr fs \<and>
        map_of fs = (\<lambda>k. if k \<in> set ns then Some (entity d k) else None)"
  by (simp add: forecasts_def build_all_known fold_update_map_of cong: if_cong)

lemma mapE_Inr: "(\<And>x. x \<in> set xs \<Longrightarrow> f x = Inr (g x)) \<Longrightarrow> mapE f xs = Inr (map g xs)"
  by (induction xs) auto











lemma dict_pop_None: "map_of m k = None \<Longrightarrow> dict_pop m k = Inl KeyError"
  by (simp add: dict_pop_def)

lemma length_hourly [simp]: "length (hourly df hours) = length hours"
  by (simp add: hourly_def)

lemma hourly_Nil [simp]: "hourly df hours = [] \<longleftrightarrow> hours = []"
  by (simp add: hourly_def)





















lemma forecasts_unsupported:
  "u_forecasts d = Some names \<Longrightarrow> \<not> set names \<subseteq> set known_forecasts \<Longrightarrow>
   forecasts d = Inl ValueError"
  by (simp add: forecasts_def build_all_unknown)

lemma pop_without_airnow:
  fixes d :: DailyData
  assumes "u_forecasts d = Some names" "set names \<subseteq> set known_forecasts"
    "''airnow'' \<notin> set names"
  obtains fs :: "(string \<times> 'df Forecast) list" where "forecasts d = Inr fs"
    "dict_pop fs ''airnow'' = Inl KeyError"
proof -
  from forecasts_known [OF assms(1,2)]
  obtain fs :: "(string \<times> 'df Forecast) list" where fs: "forecasts d = Inr fs"
    "map_of fs = (\<lambda>k. if k \<in> set names then Some (entity d k) else None)"
    by blast
  have "map_of fs ''airnow'' = None" using assms(3) by (simp add: fs(2))
  then have "dict_pop fs ''airnow'' = Inl KeyError" by (rule dict_pop_None)
  with fs(1) that show thesis by blast
qed

text \<open>
  Claim C10, amended. A metric builds the whole forecasts dict before it pops ''airnow''.
  When the configured list holds supported source names only and ''airnow'' is not among
  them, RMSE, Mean Excess Exposure and Is-Smoke-Day all raise KeyError. When the list
  holds an unsupported name, \<open>build_forecast\<close> raises ValueError first, whether or not
  ''airnow'' is configured.
\<close>

theorem metrics_need_airnow:
  fixes ld :: "'df Forecast \<Rightarrow> reading list"
  assumes "u_forecasts day_data = Some names"
  shows "(set names \<subseteq> set known_forecasts \<and> ''airnow'' \<notin> set names \<longrightarrow>
            RMSE_call hours phour ld day_data = Inl KeyError \<and>
            MeanExcessExposure_call hours ld day_data = Inl KeyError \<and>
            IsSmokeDay_call thr hours phour ld day_data = Inl KeyError) \<and>
         (\<not> set names \<subseteq> set known_forecasts \<longrightarrow>
            RMSE_call hours phour ld day_data = Inl ValueError \<and>
            MeanExcessExposure_call hours ld day_data = Inl ValueError \<and>
            IsSmokeDay_call thr hours phour ld day_data = Inl ValueError)"
proof (intro conjI impI)
  assume a: "set names \<subseteq> set known_forecasts \<and> ''airnow'' \<notin> set names"
  obtain fs :: "(string \<times> 'df Forecast) list" where fs: "forecasts day_data = Inr fs"
    "dict_pop fs ''airnow'' = Inl KeyError"
    using pop_without_airnow [OF assms] a by blast
  show "RMSE_call hours phour ld day_data = Inl KeyError"
    by (simp add: RMSE_call_def fs)
  show "MeanExcessExposure_call hours ld day_data = Inl KeyError"
    by (simp add: MeanExcessExposure_call_def fs)
  show "IsSmokeDay_call thr hours phour ld day_data = Inl KeyError"
    by (simp add: IsSmokeDay_call_def fs)
next
  assume "\<not> set names \<subseteq> set known_forecasts"
  then have f: "(forecasts day_data :: error + (string \<times> 'df Forecast) list) = Inl ValueError"
    by (rule forecasts_unsupported [OF assms])
  show "RMSE_call hours phour ld day_data = Inl ValueError"
    by (simp add: RMSE_call_def f)
  show "MeanExcessExposure_call hours ld day_data = Inl ValueError"
    by (simp add: MeanExcessExposure_call_def f)
  show "IsSmokeDay_call thr hours phour ld day_data = Inl ValueError"
    by (simp add: IsSmokeDay_call_def f)
qed

theorem metrics_need_airnow_witness:
  "u_forecasts no_airnow_day = Some [''hrrr'', ''cams''] \<and>
   ''airnow'' \<notin> set [''hrrr'', ''cams''] \<and>
   RMSE_call hours_to_include persistence_hour
     (ld_mee :: reading list Forecast \<Rightarrow> reading list) no_airnow_day = Inl KeyError \<and>
   MeanExcessExposure_call hours_to_include
     (ld_mee :: reading list Forecast \<Rightarrow> reading list) no_airnow_day = Inl KeyError \<and>
   IsSmokeDay_call threshold hours_to_include persistence_hour
     (ld_mee :: reading list Forecast \<Rightarrow> reading list) no_airnow_day = Inl KeyError \<and>
   u_forecasts unsupported_day = Some [''hrrr'', ''purpleair''] \<and>
   RMSE_call hours_to_include persistence_hour
     (ld_mee :: reading list Forecast \<Rightarrow> reading list) unsupported_day = Inl ValueError"
proof -
  have h1: "u_forecasts no_airnow_day = Some [''hrrr'', ''cams'']"
    by (simp add: no_airnow_day_def)
  have h2: "set [''hrrr'', ''cams''] \<subseteq> set known_forecasts \<and> ''airnow'' \<notin> set [''hrrr'', ''cams'']"
    by (simp add: known_forecasts_def)
  have g1: "u_forecasts unsupported_day = Some [''hrrr'', ''purpleair'']"
    by (simp add: unsupported_day_def)
  have g2: "\<not> set [''hrrr'', ''purpleair''] \<subseteq> set known_forecasts"
    by (simp add: known_forecasts_def)
  from metrics_need_airnow [OF h1, THEN conjunct1, rule_format, OF h2]
       metrics_need_airnow [OF g1, THEN conjunct2, rule_format, OF g2]
       h1 h2 g1
  show ?thesis by blast
qed

text \<open>
  A configured list without ''airnow'' for which no metric raises KeyError: the list
  names an unsupported source, and the call ends in ValueError.
\<close>

theorem metrics_without_airnow_counterexample:
  "u_forecasts unsupported_day = Some [''hrrr'', ''purpleair''] \<and>
   ''airnow'' \<notin> set [''hrrr'', ''purpleair''] \<and>
   RMSE_call hours_to_include persistence_hour
     (ld_mee :: reading list Forecast \<Rightarrow> reading list) unsupported_day \<noteq> Inl KeyError \<and>
   MeanExcessExposure_call hours_to_include
     (ld_mee :: reading list Forecast \<Rightarrow> reading list) unsupported_day = Inl ValueError \<and>
   IsSmokeDay_call threshold hours_to_include persistence_hour
     (ld_mee :: reading list Forecast \<Rightarrow> reading list) unsupported_day = Inl ValueError"
  by (simp add: unsupported_day_def example_day_def RMSE_call_def MeanExcessExposure_call_def
        IsSmokeDay_call_def forecasts_def build_forecast_def)

lemma f_sub_None_right [simp]: "f_sub a None = None"
  by (simp add: f_sub_def split: option.splits)









section \<open>Properties of saving results\<close>

lemma save_results_completes:
  "\<forall>(d, r) \<in> set results. \<forall>err. dumps r = Inl err \<longrightarrow> err = ValueError \<Longrightarrow>
   \<exists>fs'. save_results dumps E results fs = Inr fs'"
proof (induction results arbitrary: fs)
  case Nil
  then show ?case by simp
next
  case (Cons x results)
  obtain d r where x: "x = (d, r)" by (cases x)
  from Cons.prems have rest: "\<forall>(d, r) \<in> set results. \<forall>err. dumps r = Inl err \<longrightarrow> err = ValueError"
    by simp
  from Cons.prems x have hd: "\<forall>err. dumps r = Inl err \<longrightarrow> err = ValueError" by simp
  show ?case
  proof (cases "dumps r")
    case (Inl err)
    with hd have "err = ValueError" by simp
    with Inl Cons.IH [OF rest, of fs] show ?thesis
      by (simp add: x json_tricks_dump_def)
  next
    case (Inr js)
    from Cons.IH [OF rest, of "fs(result_filepath E d \<mapsto> js)"]
    obtain fs' where "save_results dumps E results (fs(result_filepath E d \<mapsto> js)) = Inr fs'" ..
    then show ?thesis
      by (simp add: x json_tricks_dump_def Inr)
  qed
qed

lemma save_results_untouched:
  "save_results dumps E results fs = Inr fs' \<Longrightarrow>
   \<forall>(d, r) \<in> set results. \<forall>txt. dumps r = Inr txt \<longrightarrow> result_filepath E d \<noteq> p \<Longrightarrow>
   fs' p = fs p"
proof (induction results arbitrary: fs)
  case Nil
  then show ?case by simp
next
  case (Cons x results)
  obtain d r where x: "x = (d, r)" by (cases x)
  from Cons.prems(2) have rest:
    "\<forall>(d, r) \<in> set results. \<forall>txt. dumps r = Inr txt \<longrightarrow> result_filepath E d \<noteq> p"
    by simp
  show ?case
  proof (cases "dumps r")
    case (Inl err)
    with Cons.prems(1) have "save_results dumps E results fs = Inr fs'"
      by (simp add: x json_tricks_dump_def split: if_splits)
    from Cons.IH [OF this rest] show ?thesis .
  next
    case (Inr js)
    with Cons.prems(1) have "save_results dumps E results (fs(result_filepath E d \<mapsto> js)) = Inr fs'"
      by (simp add: x json_tricks_dump_def)
    from Cons.IH [OF this rest] have "fs' p = (fs(result_filepath E d \<mapsto> js)) p" .
    moreover have "result_filepath E d \<noteq> p" using Cons.prems(2) Inr x by simp
    ultimately show ?thesis by simp
  qed
qed

lemma save_results_written:
  "save_results dumps E results fs = Inr fs' \<Longrightarrow>
   distinct (map (\<lambda>(d, r). result_filepath E d) results) \<Longrightarrow>
   (d, r) \<in> set results \<Longrightarrow> dumps r = Inr txt \<Longrightarrow>
   fs' (result_filepath E d) = Some txt"
proof (induction results arbitrary: fs)
  case Nil
  then show ?case by simp
next
  case (Cons x results)
  obtain d0 r0 where x: "x = (d0, r0)" by (cases x)
  from Cons.prems(2) have dist: "distinct (map (\<lambda>(d, r). result_filepath E d) results)"
    and fresh: "result_filepath E d0 \<notin> (\<lambda>(d, r). result_filepath E d) ` set results"
    by (simp_all add: x)
  show ?case
  proof (cases "(d, r) = (d0, r0)")
    case True
    with Cons.prems(1,4) have run: "save_results dumps E results (fs(result_filepath E d \<mapsto> txt)) = Inr fs'"
      by (simp add: x json_tricks_dump_def)
    have "\<forall>(d', r') \<in> set results. \<forall>txt. dumps r' = Inr txt \<longrightarrow> result_filepath E d' \<noteq> result_filepath E d"
      using fresh True by force
    from save_results_untouched [OF run this] show ?thesis by simp
  next
    case False
    with Cons.prems(3) have mem: "(d, r) \<in> set results" by (auto simp: x)
    show ?thesis
    proof (cases "dumps r0")
      case (Inl err)
      with Cons.prems(1) have "save_results dumps E results fs = Inr fs'"
        by (simp add: x json_tricks_dump_def split: if_splits)
      from Cons.IH [OF this dist mem Cons.prems(4)] show ?thesis .
    next
      case (Inr t0)
      with Cons.prems(1) have "save_results dumps E results (fs(result_filepath E d0 \<mapsto> t0)) = Inr fs'"
        by (simp add: x json_tricks_dump_def)
      from Cons.IH [OF this dist mem Cons.prems(4)] show ?thesis .
    qed
  qed
qed

lemma digits_small: "n < 10 \<Longrightarrow> digits n = [digit n]"
  by (subst digits.simps) simp

lemma digits_big: "\<not> n < 10 \<Longrightarrow> digits n = digits (n div 10) @ [digit (n mod 10)]"
  by (subst digits.simps) simp

lemma digit_val_digit: "k < 10 \<Longrightarrow> digit_val (digit k) = k"
proof -
  assume "k < 10"
  then have "k \<in> {0, 1, 2, 3, 4, 5, 6, 7, 8, 9}" by auto
  then show ?thesis by (auto simp: digit_def digit_val_def)
qed

lemma val_of_snoc: "val_of (s @ [c]) = 10 * val_of s + digit_val c"
  by (simp add: val_of_def)

lemma val_of_digits: "val_of (digits n) = n"
proof (induction n rule: digits.induct)
  case (1 n)
  show ?case
  proof (cases "n < 10")
    case True
    then show ?thesis by (simp add: digits_small val_of_def digit_val_digit)
  next
    case False
    then have "digits n = digits (n div 10) @ [digit (n mod 10)]" by (rule digits_big)
    then have "val_of (digits n) = 10 * val_of (digits (n div 10)) + digit_val (digit (n mod 10))"
      by (simp only: val_of_snoc)
    with 1 False show ?thesis by (simp add: digit_val_digit)
  qed
qed

lemma val_of_zeros: "foldl (\<lambda>a c. 10 * a + digit_val c) 0 (replicate k (CHR ''0'')) = 0"
  by (induction k) (simp_all add: digit_val_def)

lemma val_of_zfill: "val_of (zfill w (digits n)) = n"
  using val_of_digits [of n] by (simp add: zfill_def val_of_def val_of_zeros)

lemma length_digits: "0 < k \<Longrightarrow> n < 10 ^ k \<Longrightarrow> length (digits n) \<le> k"
proof (induction k arbitrary: n)
  case 0
  then show ?case by simp
next
  case (Suc k)
  show ?case
  proof (cases "n < 10")
    case True
    then show ?thesis by (simp add: digits_small)
  next
    case False
    then have k: "0 < k" using Suc.prems(2) by (cases k) auto
    have "n div 10 < 10 ^ k" using Suc.prems(2) by (simp add: less_mult_imp_div_less mult.commute)
    from Suc.IH [OF k this] False show ?thesis by (simp add: digits_big)
  qed
qed

lemma length_zfill: "length s \<le> w \<Longrightarrow> length (zfill w s) = w"
  by (simp add: zfill_def)

lemma isoformat_inj:
  assumes "valid_date d" "valid_date d'" "isoformat d = isoformat d'"
  shows "d = d'"
proof -
  let ?Y = "\<lambda>d. zfill 4 (digits (year d))"
  let ?M = "\<lambda>d. zfill 2 (digits (month d))"
  let ?D = "\<lambda>d. zfill 2 (digits (day d))"
  have ly: "length (?Y x) = 4" if "valid_date x" for x
    using that length_digits [of 4 "year x"] by (simp add: length_zfill valid_date_def)
  have lm: "length (?M x) = 2" if "valid_date x" for x
    using that length_digits [of 2 "month x"] by (simp add: length_zfill valid_date_def)
  have eq: "?Y d @ ''-'' @ ?M d @ ''-'' @ ?D d = ?Y d' @ ''-'' @ ?M d' @ ''-'' @ ?D d'"
    using assms(3) by (simp add: isoformat_def)
  have y: "?Y d = ?Y d'" and rest: "?M d @ ''-'' @ ?D d = ?M d' @ ''-'' @ ?D d'"
    using eq ly [OF assms(1)] ly [OF assms(2)] by simp_all
  have m: "?M d = ?M d'" and dd: "?D d = ?D d'"
    using rest lm [OF assms(1)] lm [OF assms(2)] by simp_all
  have "year d = year d'" using y val_of_zfill by metis
  moreover have "month d = month d'" using m val_of_zfill by metis
  moreover have "day d = day d'" using dd val_of_zfill by metis
  ultimately show ?thesis by simp
qed

lemma result_filepath_distinct:
  assumes "distinct (map fst results)" "\<forall>(d, r) \<in> set results. valid_date d"
  shows "distinct (map (\<lambda>(d, r). result_filepath E d) results)"
proof -
  have "inj_on (result_filepath E) (set (map fst results))"
  proof (rule inj_onI)
    fix x y assume x: "x \<in> set (map fst results)" and y: "y \<in> set (map fst results)"
      and eq: "result_filepath E x = result_filepath E y"
    have "valid_date x" "valid_date y" using assms(2) x y by auto
    moreover have "isoformat x = isoformat y" using eq by (simp add: result_filepath_def)
    ultimately show "x = y" by (rule isoformat_inj)
  qed
  then have d1: "distinct (map (result_filepath E) (map fst results))"
    using distinct_map [of "result_filepath E" "map fst results"] assms(1) by blast
  have "map (\<lambda>(d, r). result_filepath E d) results = map (result_filepath E) (map fst results)"
    by (simp add: case_prod_beta comp_def)
  then show ?thesis using d1 by (simp only:)
qed

text \<open>
  Claim C9. When the only exception serialisation raises is ValueError, \<open>save_results\<close>
  runs to the end; the file of a date whose result fails to serialise is not written (its
  path keeps what it held before, nothing when there was no file), and every other date's
  path holds its complete serialised result.
\<close>

theorem save_results_skips_failed_dates:
  assumes "distinct (map fst results)"
    and "\<forall>(d, r) \<in> set results. valid_date d"
    and "\<forall>(d, r) \<in> set results. \<forall>err. dumps r = Inl err \<longrightarrow> err = ValueError"
  shows "\<exists>fs'. save_results dumps E results fs = Inr fs' \<and>
     (\<forall>(d, r) \<in> set results.
        (dumps r = Inl ValueError \<longrightarrow>
           fs' (result_filepath E d) = fs (result_filepath E d)) \<and>
        (\<forall>js. dumps r = Inr js \<longrightarrow> fs' (result_filepath E d) = Some js))"
proof -
  from save_results_completes [OF assms(3)]
  obtain fs' where run: "save_results dumps E results fs = Inr fs'" by blast
  have dist: "distinct (map (\<lambda>(d, r). result_filepath E d) results)"
    by (rule result_filepath_distinct [OF assms(1,2)])
  have written: "fs' (result_filepath E d) = Some js"
    if "(d, r) \<in> set results" "dumps r = Inr js" for d r js
    by (rule save_results_written [OF run dist that])
  have skipped: "fs' (result_filepath E d) = fs (result_filepath E d)"
    if mem: "(d, r) \<in> set results" and bad: "dumps r = Inl ValueError" for d r
  proof (rule save_results_untouched [OF run], clarify)
    fix d' r' js assume m': "(d', r') \<in> set results" and ok: "dumps r' = Inr js"
      and same: "result_filepath E d' = result_filepath E d"
    have "valid_date d'" "valid_date d" using assms(2) mem m' by auto
    moreover have "isoformat d' = isoformat d" using same by (simp add: result_filepath_def)
    ultimately have "d' = d" by (rule isoformat_inj)
    with assms(1) mem m' have "r' = r" by (metis eq_key_imp_eq_value)
    with ok bad show False by simp
  qed
  from run written skipped show ?thesis by blast
qed

theorem save_results_skips_failed_dates_witness:
  "distinct (map fst example_results) \<and>
   (\<exists>fs'. save_results example_dumps example_experiment example_results Map.empty = Inr fs' \<and>
      fs' [''results'', ''Boston, MA'', ''2023-07-02.json''] = None \<and>
      fs' [''results'', ''Boston, MA'', ''2023-07-03.json''] = Some ''{}'')"
proof -
  have h1: "distinct (map fst example_results)"
    by (simp add: example_results_def)
  have h2: "\<forall>(d, r) \<in> set example_results. valid_date d"
    by (simp add: example_results_def valid_date_def)
  have h3: "\<forall>(d, r) \<in> set example_results. \<forall>err. example_dumps r = Inl err \<longrightarrow> err = ValueError"
    by (simp add: example_results_def example_dumps_def)
  from save_results_skips_failed_dates [OF h1 h2 h3, of example_experiment Map.empty]
  obtain fs' where run: "save_results example_dumps example_experiment example_results Map.empty = Inr fs'"
    and each: "\<forall>(d, r) \<in> set example_results.
        (example_dumps r = Inl ValueError \<longrightarrow>
           fs' (result_filepath example_experiment d) = Map.empty (result_filepath example_experiment d)) \<and>
        (\<forall>js. example_dumps r = Inr js \<longrightarrow> fs' (result_filepath example_experiment d) = Some js)"
    by blast
  have p1: "result_filepath example_experiment \<lparr>year = 2023, month = 7, day = 2\<rparr> =
      [''results'', ''Boston, MA'', ''2023-07-02.json'']"
    by (simp add: result_filepath_def example_experiment_def isoformat_def zfill_def
          digits_small digits_big digit_def)
  have p2: "result_filepath example_experiment \<lparr>year = 2023, month = 7, day = 3\<rparr> =
      [''results'', ''Boston, MA'', ''2023-07-03.json'']"
    by (simp add: result_filepath_def example_experiment_def isoformat_def zfill_def
          digits_small digits_big digit_def)
  from each have "fs' [''results'', ''Boston, MA'', ''2023-07-02.json''] = None"
    "fs' [''results'', ''Boston, MA'', ''2023-07-03.json''] = Some ''{}''"
    by (simp_all add: example_results_def example_dumps_def p1 p2)
  with run h1 show ?thesis by blast
qed

section \<open>Properties of the Spatial Matcher\<close>

lemma haversine_sym: "haversine x y = haversine y x"
proof -
  have a: "sin (0.5 * (fst x - fst y)) = - sin (0.5 * (fst y - fst x))"
    by (metis minus_diff_eq mult_minus_right sin_minus)
  have b: "sin (0.5 * (snd x - snd y)) = - sin (0.5 * (snd y - snd x))"
    by (metis minus_diff_eq mult_minus_right sin_minus)
  show ?thesis unfolding haversine_def Let_def a b by (simp add: mult.commute mult.left_commute)
qed

lemma nth_filter_indices:
  "map (\<lambda>i. xs ! i) (filter (\<lambda>i. p (xs ! i)) [0..<length xs]) = filter p xs"
proof -
  have "map (\<lambda>i. xs ! i) (filter (\<lambda>i. p (xs ! i)) [0..<length xs]) =
        filter p (map (\<lambda>i. xs ! i) [0..<length xs])"
    by (simp add: filter_map comp_def)
  then show ?thesis by (simp add: map_nth)
qed

lemma find_nearby_predictions_nonempty:
  assumes "predictions \<noteq> []"
  shows "find_nearby_predictions predictions P max_distance =
           Inr (filter (\<lambda>r. great_circle_km P r \<le> max_distance) predictions)"
proof -
  let ?c = "(radians (fst P), radians (snd P))"
  let ?dists = "map (\<lambda>d. 6371 * d) (map (haversine ?c) (latlons predictions))"
  have len: "length ?dists = length predictions" by (simp add: latlons_def)
  have "filter (\<lambda>i. ?dists ! i \<le> max_distance) [0..<length ?dists] =
        filter (\<lambda>i. great_circle_km P (predictions ! i) \<le> max_distance) [0..<length predictions]"
    unfolding len
    by (rule filter_cong) (simp_all add: latlons_def great_circle_km_def)
  then have "map (\<lambda>i. predictions ! i) (filter (\<lambda>i. ?dists ! i \<le> max_distance) [0..<length ?dists]) =
        filter (\<lambda>r. great_circle_km P r \<le> max_distance) predictions"
    using nth_filter_indices [of predictions "\<lambda>r. great_circle_km P r \<le> max_distance"]
    by simp
  moreover have "latlons predictions \<noteq> []" using assms by (simp add: latlons_def)
  ultimately show ?thesis
    by (simp add: find_nearby_predictions_def haversine_distances_def check_array_def Let_def)
qed

text \<open>
  Claim C3, amended. For every non-empty Reading Set and every target point, radius mode
  returns exactly the rows whose great-circle distance (haversine, Earth radius 6371 km)
  to the target is at most \<open>max_distance\<close>, in their order and with their multiplicity:
  every returned row is within \<open>max_distance\<close>, no excluded row is, and nothing is
  deduplicated or capped.
\<close>

theorem radius_mode_filter:
  fixes predictions :: "'a reading_scheme list"
  assumes "predictions \<noteq> []"
  shows "\<exists>res. find_nearby_predictions predictions P max_distance = Inr res \<and>
           res = filter (\<lambda>r. great_circle_km P r \<le> max_distance) predictions \<and>
           (\<forall>r \<in> set res. great_circle_km P r \<le> max_distance) \<and>
           (\<forall>r \<in> set predictions. r \<notin> set res \<longrightarrow> \<not> great_circle_km P r \<le> max_distance) \<and>
           (\<forall>r. great_circle_km P r \<le> max_distance \<longrightarrow> count_list res r = count_list predictions r)"
proof -
  let ?res = "filter (\<lambda>r. great_circle_km P r \<le> max_distance) predictions"
  have "count_list ?res r = count_list predictions r" if "great_circle_km P r \<le> max_distance" for r
    using that by (induction predictions) auto
  then show ?thesis
    using find_nearby_predictions_nonempty [OF assms, of P max_distance] by auto
qed

text \<open>
  On the empty Reading Set radius mode returns nothing: the distance computation rejects
  an array with no rows.
\<close>

theorem radius_mode_empty_counterexample:
  "find_nearby_predictions ([] :: reading list) (42.36, -71.06) 50 = Inl ValueError"
  by (simp add: find_nearby_predictions_def haversine_distances_def check_array_def latlons_def)

text \<open>
  Claim C8, amended. For the empty Reading Set and any target point, both modes of the
  Spatial Matcher raise ValueError; neither returns an empty Reading Set.
\<close>

theorem empty_reading_set_raises:
  "find_nearby_monitors ([] :: 'a aqs_reading_scheme list) P max_distance max_neighbors = Inl ValueError \<and>
   find_nearby_predictions ([] :: 'b reading_scheme list) P max_distance = Inl ValueError"
  by (simp add: find_nearby_monitors_def fit_def find_nearby_predictions_def
        haversine_distances_def check_array_def latlons_def)

text \<open>
  Nearest-K mode on the empty Reading Set, with the defaults of the observation source.
\<close>

theorem nearest_k_empty_counterexample:
  "find_nearby_monitors ([] :: aqs_reading list) (42.36, -71.06) 50 10 = Inl ValueError"
  by (simp add: find_nearby_monitors_def fit_def check_array_def latlons_def)

lemma insort_key_map:
  "insort_key f (g x) (map g xs) = map g (insort_key (\<lambda>a. f (g a)) x xs)"
  by (induction xs) simp_all

lemma insort_key_agree:
  "f x = g x \<Longrightarrow> \<forall>y \<in> set ys. f y = g y \<Longrightarrow> insort_key f x ys = insort_key g x ys"
  by (induction ys) simp_all

lemma insort_key_scale:
  fixes f :: "'a \<Rightarrow> real"
  shows "0 < c \<Longrightarrow> insort_key (\<lambda>x. c * f x) x ys = insort_key f x ys"
  by (induction ys) simp_all

lemma good_inds_filter:
  "map snd (filter (\<lambda>(d, i). p d) (zip (map f xs) xs)) = filter (\<lambda>i. p (f i)) xs"
  by (induction xs) auto

lemma sort_key_map: "sort_key f (map g xs) = map g (sort_key (\<lambda>a. f (g a)) xs)"
proof (induction xs)
  case Nil
  then show ?case by simp
next
  case (Cons a xs)
  have "sort_key f (map g (a # xs)) = insort_key f (g a) (map g (sort_key (\<lambda>a. f (g a)) xs))"
    using Cons.IH by simp
  also have "\<dots> = map g (insort_key (\<lambda>a. f (g a)) a (sort_key (\<lambda>a. f (g a)) xs))"
    by (rule insort_key_map)
  finally show ?case by simp
qed

lemma sort_key_agree: "\<forall>x \<in> set xs. f x = g x \<Longrightarrow> sort_key f xs = sort_key g xs"
proof (induction xs)
  case Nil
  then show ?case by simp
next
  case (Cons a xs)
  then have ih: "sort_key f xs = sort_key g xs" by simp
  have "insort_key f a (sort_key g xs) = insort_key g a (sort_key g xs)"
    using Cons.prems by (intro insort_key_agree) simp_all
  with ih show ?case by simp
qed

lemma sort_key_scale:
  fixes f :: "'a \<Rightarrow> real"
  shows "0 < c \<Longrightarrow> sort_key (\<lambda>x. c * f x) xs = sort_key f xs"
proof (induction xs)
  case Nil
  then show ?case by simp
next
  case (Cons a xs)
  then have ih: "sort_key (\<lambda>x. c * f x) xs = sort_key f xs" by simp
  have "insort_key (\<lambda>x. c * f x) a (sort_key f xs) = insort_key f a (sort_key f xs)"
    using Cons.prems by (rule insort_key_scale)
  with ih show ?case by simp
qed

lemma ranked_stations:
  fixes aqs :: "'a aqs_reading_scheme list"
  shows "map (\<lambda>i. aqs ! i)
           (sort_key (\<lambda>i. haversine (radians (fst P), radians (snd P)) (latlons aqs ! i))
              [0..<length aqs]) =
         sort_key (great_circle_km P) aqs"
proof -
  let ?q = "(radians (fst P), radians (snd P))"
  let ?h = "\<lambda>s. haversine ?q (radians (Latitude s), radians (Longitude s))"
  have "sort_key (\<lambda>i. haversine ?q (latlons aqs ! i)) [0..<length aqs] =
        sort_key (\<lambda>i. ?h (aqs ! i)) [0..<length aqs]"
    by (rule sort_key_agree) (simp add: latlons_def)
  then have "map (\<lambda>i. aqs ! i) (sort_key (\<lambda>i. haversine ?q (latlons aqs ! i)) [0..<length aqs]) =
        sort_key ?h (map (\<lambda>i. aqs ! i) [0..<length aqs])"
    by (simp only: sort_key_map)
  also have "\<dots> = sort_key ?h aqs" by (simp add: map_nth)
  also have "\<dots> = sort_key (\<lambda>s. 6371 * ?h s) aqs" by (simp add: sort_key_scale)
  also have "(\<lambda>s. 6371 * ?h s) = great_circle_km P"
    by (rule ext) (simp add: great_circle_km_def)
  finally show ?thesis .
qed

lemma drop_duplicates_subset: "set (drop_duplicates seen rs) \<subseteq> set rs"
  by (induction rs arbitrary: seen) auto

lemma drop_duplicates_unseen: "r \<in> set (drop_duplicates seen rs) \<Longrightarrow> AQSID r \<notin> set seen"
proof (induction rs arbitrary: seen)
  case Nil
  then show ?case by simp
next
  case (Cons a rs)
  show ?case
  proof (cases "AQSID a \<in> set seen")
    case True
    with Cons.prems have "r \<in> set (drop_duplicates seen rs)" by simp
    then show ?thesis by (rule Cons.IH)
  next
    case False
    with Cons.prems have "r = a \<or> r \<in> set (drop_duplicates (AQSID a # seen) rs)" by simp
    then show ?thesis
    proof
      assume "r = a"
      with False show ?thesis by simp
    next
      assume "r \<in> set (drop_duplicates (AQSID a # seen) rs)"
      from Cons.IH [OF this] show ?thesis by simp
    qed
  qed
qed

lemma drop_duplicates_distinct: "distinct (map AQSID (drop_duplicates seen rs))"
proof (induction rs arbitrary: seen)
  case Nil
  then show ?case by simp
next
  case (Cons r rs)
  have "AQSID r \<notin> AQSID ` set (drop_duplicates (AQSID r # seen) rs)"
  proof
    assume "AQSID r \<in> AQSID ` set (drop_duplicates (AQSID r # seen) rs)"
    then obtain u where u: "u \<in> set (drop_duplicates (AQSID r # seen) rs)" "AQSID u = AQSID r"
      by auto
    from drop_duplicates_unseen [OF u(1)] u(2) show False by simp
  qed
  with Cons.IH show ?case by simp
qed

lemma drop_duplicates_ids:
  "AQSID ` set (drop_duplicates seen rs) = AQSID ` set rs - set seen"
proof (induction rs arbitrary: seen)
  case Nil
  then show ?case by simp
next
  case (Cons r rs)
  show ?case
  proof (cases "AQSID r \<in> set seen")
    case True
    then show ?thesis using Cons.IH [of seen] by auto
  next
    case False
    then show ?thesis using Cons.IH [of "AQSID r # seen"] by auto
  qed
qed

lemma find_nearby_monitors_closed:
  fixes aqs_readings :: "'a aqs_reading_scheme list"
  assumes "1 \<le> max_neighbors"
    and "max_neighbors \<le> int (length (drop_duplicates [] aqs_readings))"
  shows "find_nearby_monitors aqs_readings P max_distance max_neighbors =
     Inr (filter (\<lambda>r. AQSID r \<in> AQSID ` set
            (filter (\<lambda>s. great_circle_km P s \<le> max_distance)
               (take (nat max_neighbors)
                  (sort_key (great_circle_km P) (drop_duplicates [] aqs_readings)))))
          aqs_readings)"
proof -
  let ?aqs = "drop_duplicates [] aqs_readings"
  let ?q = "(radians (fst P), radians (snd P))"
  let ?g = "\<lambda>i. haversine ?q (latlons ?aqs ! i)"
  let ?ranked = "sort_key ?g [0..<length ?aqs]"
  let ?idx = "take (nat max_neighbors) ?ranked"
  let ?good = "filter (\<lambda>i. ?g i * 6371 \<le> max_distance) ?idx"
  have len: "length (latlons ?aqs) = length ?aqs" by (simp add: latlons_def)
  have ne: "latlons ?aqs \<noteq> []" using assms len by auto
  have fit: "fit max_neighbors (latlons ?aqs) = Inr (latlons ?aqs)"
    using assms(1) ne by (simp add: fit_def check_array_def)
  have kn: "kneighbors max_neighbors (latlons ?aqs) ?q = Inr (map ?g ?idx, ?idx)"
    using assms(2) by (simp add: kneighbors_def len Let_def)
  have good: "map snd (filter (\<lambda>(d, i). d * 6371 \<le> max_distance) (zip (map ?g ?idx) ?idx)) = ?good"
    by (rule good_inds_filter)
  have idx_range: "set ?idx \<subseteq> {0..<length ?aqs}"
    using set_take_subset [of "nat max_neighbors" ?ranked] by auto
  have "?good = filter (\<lambda>i. great_circle_km P (?aqs ! i) \<le> max_distance) ?idx"
  proof (rule filter_cong [OF refl])
    fix i assume "i \<in> set ?idx"
    with idx_range have "i < length ?aqs" by auto
    then show "(?g i * 6371 \<le> max_distance) = (great_circle_km P (?aqs ! i) \<le> max_distance)"
      by (simp add: latlons_def great_circle_km_def mult.commute)
  qed
  then have "map (\<lambda>i. ?aqs ! i) ?good =
      filter (\<lambda>s. great_circle_km P s \<le> max_distance) (map (\<lambda>i. ?aqs ! i) ?idx)"
    by (simp add: filter_map comp_def)
  also have "map (\<lambda>i. ?aqs ! i) ?idx = take (nat max_neighbors) (map (\<lambda>i. ?aqs ! i) ?ranked)"
    by (simp add: take_map)
  also have "map (\<lambda>i. ?aqs ! i) ?ranked = sort_key (great_circle_km P) ?aqs"
    by (rule ranked_stations)
  finally have sel: "map (\<lambda>i. ?aqs ! i) ?good =
      filter (\<lambda>s. great_circle_km P s \<le> max_distance)
        (take (nat max_neighbors) (sort_key (great_circle_km P) ?aqs))" .
  have "set (map (\<lambda>i. AQSID (?aqs ! i)) ?good) = AQSID ` set (map (\<lambda>i. ?aqs ! i) ?good)"
    by (simp add: image_image)
  then have ids: "set (map (\<lambda>i. AQSID (?aqs ! i)) ?good) = AQSID ` set
      (filter (\<lambda>s. great_circle_km P s \<le> max_distance)
        (take (nat max_neighbors) (sort_key (great_circle_km P) ?aqs)))"
    by (simp only: sel)
  show ?thesis
    unfolding find_nearby_monitors_def Let_def
    by (simp only: fit kn sum.case prod.case good ids)
qed

text \<open>
  Claim C2, amended. When \<open>max_neighbors\<close> is at least 1 and at most the number of unique
  stations, nearest-K mode deduplicates by AQSID keeping first occurrences, ranks the
  unique stations by great-circle distance to the target, takes the \<open>max_neighbors\<close>
  nearest (\<open>top\<close>, in non-decreasing distance, every other station at least as far),
  keeps those within \<open>max_distance\<close> (\<open>sel\<close>) and returns every original row whose AQSID
  is among them, in the order of the input. The result has at most \<open>max_neighbors\<close>
  distinct stations.
\<close>

theorem nearest_k_mode:
  fixes aqs_readings :: "'a aqs_reading_scheme list"
  assumes "1 \<le> max_neighbors"
    and "max_neighbors \<le> int (length (drop_duplicates [] aqs_readings))"
  shows "\<exists>top sel res.
      find_nearby_monitors aqs_readings P max_distance max_neighbors = Inr res \<and>
      distinct (map AQSID (drop_duplicates [] aqs_readings)) \<and>
      AQSID ` set (drop_duplicates [] aqs_readings) = AQSID ` set aqs_readings \<and>
      set top \<subseteq> set (drop_duplicates [] aqs_readings) \<and>
      int (length top) = max_neighbors \<and>
      distinct (map AQSID top) \<and>
      sorted (map (great_circle_km P) top) \<and>
      (\<forall>u \<in> set (drop_duplicates [] aqs_readings). u \<notin> set top \<longrightarrow>
          (\<forall>t \<in> set top. great_circle_km P t \<le> great_circle_km P u)) \<and>
      sel = filter (\<lambda>s. great_circle_km P s \<le> max_distance) top \<and>
      sorted (map (great_circle_km P) sel) \<and>
      res = filter (\<lambda>r. AQSID r \<in> AQSID ` set sel) aqs_readings \<and>
      int (card (AQSID ` set res)) \<le> max_neighbors"
proof -
  let ?aqs = "drop_duplicates [] aqs_readings"
  let ?km = "great_circle_km P"
  let ?s = "sort_key ?km ?aqs"
  let ?K = "nat max_neighbors"
  let ?top = "take ?K ?s"
  let ?sel = "filter (\<lambda>s. ?km s \<le> max_distance) ?top"
  let ?res = "filter (\<lambda>r. AQSID r \<in> AQSID ` set ?sel) aqs_readings"
  have run: "find_nearby_monitors aqs_readings P max_distance max_neighbors = Inr ?res"
    by (rule find_nearby_monitors_closed [OF assms])
  have d0: "distinct (map AQSID ?aqs)" by (rule drop_duplicates_distinct)
  have ids: "AQSID ` set ?aqs = AQSID ` set aqs_readings"
    by (simp add: drop_duplicates_ids)
  have sub: "set ?top \<subseteq> set ?aqs"
    using set_take_subset [of ?K ?s] by simp
  have len: "int (length ?top) = max_neighbors"
    using assms by simp
  have "distinct (map AQSID ?s)"
    using d0 by (simp add: distinct_map)
  then have "distinct (take ?K (map AQSID ?s))" by (rule distinct_take)
  then have dt: "distinct (map AQSID ?top)" by (simp add: take_map)
  have ss: "sorted (map ?km ?s)" by (rule sorted_sort_key)
  then have "sorted (take ?K (map ?km ?s))" by (rule sorted_wrt_take)
  then have st: "sorted (map ?km ?top)" by (simp add: take_map)
  have far: "\<forall>u \<in> set ?aqs. u \<notin> set ?top \<longrightarrow> (\<forall>t \<in> set ?top. ?km t \<le> ?km u)"
  proof (intro ballI impI)
    fix u t assume u: "u \<in> set ?aqs" "u \<notin> set ?top" and t: "t \<in> set ?top"
    have "set ?s = set (take ?K ?s) \<union> set (drop ?K ?s)"
      by (metis append_take_drop_id set_append)
    with u have ud: "u \<in> set (drop ?K ?s)" by auto
    have "sorted (map ?km (take ?K ?s) @ map ?km (drop ?K ?s))"
      using ss by (metis append_take_drop_id map_append)
    then have "\<forall>x \<in> set (map ?km (take ?K ?s)). \<forall>y \<in> set (map ?km (drop ?K ?s)). x \<le> y"
      by (simp add: sorted_append)
    with t ud show "?km t \<le> ?km u" by auto
  qed
  have ssel: "sorted (map ?km ?sel)" using st by (rule sorted_filter)
  have "AQSID ` set ?res \<subseteq> AQSID ` set ?sel" by auto
  then have "card (AQSID ` set ?res) \<le> card (AQSID ` set ?sel)"
    by (intro card_mono) auto
  also have "\<dots> \<le> card (set ?sel)" by (intro card_image_le) auto
  also have "\<dots> \<le> length ?sel" by (rule card_length)
  also have "\<dots> \<le> length ?top" by (rule length_filter_le)
  finally have c: "card (AQSID ` set ?res) \<le> length ?top" .
  have card: "int (card (AQSID ` set ?res)) \<le> max_neighbors"
    using c len by linarith
  from run d0 ids sub len dt st far ssel card show ?thesis
    by (intro exI [of _ ?top] exI [of _ ?sel] exI [of _ ?res] conjI refl)
qed

lemma haversine_meridian:
  assumes "\<bar>a - b\<bar> \<le> pi"
  shows "haversine (a, l) (b, l) = \<bar>a - b\<bar>"
proof -
  define x where "x = (a - b) / 2"
  have lo: "- (pi / 2) \<le> x" and hi: "x \<le> pi / 2"
    using assms by (simp_all add: x_def abs_le_iff) 
  have abs_sin: "\<bar>sin x\<bar> = sin \<bar>x\<bar>"
  proof (cases "0 \<le> x")
    case True
    moreover have "x \<le> pi" using hi pi_ge_zero by linarith
    ultimately have "0 \<le> sin x" by (rule sin_ge_zero)
    with True show ?thesis by simp
  next
    case False
    then have "0 \<le> - x" by simp
    moreover have "- x \<le> pi" using lo pi_ge_zero by linarith
    ultimately have "0 \<le> sin (- x)" by (rule sin_ge_zero)
    with False show ?thesis by simp
  qed
  have ax: "- (pi / 2) \<le> \<bar>x\<bar>" "\<bar>x\<bar> \<le> pi / 2"
    using lo hi pi_ge_zero by (simp_all add: abs_le_iff) 
  have "haversine (a, l) (b, l) = 2 * arcsin (sqrt (sin x * sin x))"
    by (simp add: haversine_def x_def)
  also have "sqrt (sin x * sin x) = \<bar>sin x\<bar>" by simp
  also have "\<bar>sin x\<bar> = sin \<bar>x\<bar>" by (rule abs_sin)
  also have "arcsin (sin \<bar>x\<bar>) = \<bar>x\<bar>" using ax by (rule arcsin_sin)
  also have "2 * \<bar>x\<bar> = \<bar>a - b\<bar>" by (simp add: x_def)
  finally show ?thesis .
qed

lemma great_circle_same_lon:
  fixes r :: "'a reading_scheme"
  assumes "Longitude r = snd P" "\<bar>fst P - Latitude r\<bar> \<le> 180"
  shows "great_circle_km P r = 6371 * (\<bar>fst P - Latitude r\<bar> * pi / 180)"
proof -
  have eq: "radians (fst P) - radians (Latitude r) = (fst P - Latitude r) * (pi / 180)"
    by (simp add: radians_def algebra_simps)
  have "\<bar>radians (fst P) - radians (Latitude r)\<bar> = \<bar>fst P - Latitude r\<bar> * \<bar>pi / 180\<bar>"
    by (simp only: eq abs_mult)
  then have d: "\<bar>radians (fst P) - radians (Latitude r)\<bar> = \<bar>fst P - Latitude r\<bar> * pi / 180"
    by simp
  have "\<bar>fst P - Latitude r\<bar> * pi \<le> 180 * pi"
    using assms(2) pi_ge_zero by (rule mult_right_mono)
  then have b: "\<bar>fst P - Latitude r\<bar> * pi / 180 \<le> pi" by simp
  have "\<bar>radians (fst P) - radians (Latitude r)\<bar> \<le> pi"
    unfolding d by (rule b)
  from haversine_meridian [OF this, of "radians (snd P)"]
  have "haversine (radians (fst P), radians (snd P)) (radians (Latitude r), radians (snd P)) =
      \<bar>fst P - Latitude r\<bar> * pi / 180"
    unfolding d .
  then show ?thesis
    by (simp only: great_circle_km_def assms(1))
qed

lemma km_near: "great_circle_km boston near_station = 0"
  using great_circle_same_lon [of near_station boston]
  by (simp add: boston_def near_station_def station_def)

lemma km_far: "great_circle_km boston far_station = 6371 * pi / 900"
  using great_circle_same_lon [of far_station boston]
  by (simp add: boston_def far_station_def station_def)

lemma km_remote: "great_circle_km boston remote_station = 6371 * pi / 180"
  using great_circle_same_lon [of remote_station boston]
  by (simp add: boston_def remote_station_def station_def)

lemma km_order:
  "great_circle_km boston near_station < great_circle_km boston far_station"
  "great_circle_km boston far_station < great_circle_km boston remote_station"
  "great_circle_km boston near_station \<le> 50"
  "great_circle_km boston far_station \<le> 50"
  "\<not> great_circle_km boston remote_station \<le> 50"
  using pi_gt_zero pi_less_4 pi_ge_two by (simp_all add: km_near km_far km_remote)

lemma km_cells:
  "great_circle_km boston near_cell \<le> 50"
  "great_circle_km boston far_cell \<le> 50"
  "\<not> great_circle_km boston remote_cell \<le> 50"
  using great_circle_same_lon [of near_cell boston] great_circle_same_lon [of far_cell boston]
    great_circle_same_lon [of remote_cell boston] pi_gt_zero pi_less_4 pi_ge_two
  by (simp_all add: boston_def near_cell_def far_cell_def remote_cell_def cell_def)

theorem radius_mode_filter_witness:
  "[near_cell, remote_cell, far_cell, near_cell] \<noteq> [] \<and>
   find_nearby_predictions [near_cell, remote_cell, far_cell, near_cell] boston 50 =
     Inr [near_cell, far_cell, near_cell]"
proof -
  have h: "[near_cell, remote_cell, far_cell, near_cell] \<noteq> []" by simp
  from radius_mode_filter [OF h, of boston 50]
  have "find_nearby_predictions [near_cell, remote_cell, far_cell, near_cell] boston 50 =
      Inr (filter (\<lambda>r. great_circle_km boston r \<le> 50) [near_cell, remote_cell, far_cell, near_cell])"
    by blast
  then show ?thesis by (simp add: km_cells)
qed

lemma station_ids:
  "AQSID near_station = ''250250042''" "AQSID far_station = ''250092006''"
  "AQSID remote_station = ''330150018''"
  by (simp_all add: near_station_def far_station_def remote_station_def station_def)

lemma two_stations:
  "drop_duplicates [] [near_station, far_station] = [near_station, far_station]"
  "drop_duplicates [] [far_station, near_station] = [far_station, near_station]"
  by (simp_all add: near_station_def far_station_def station_def)

text \<open>
  Two stations and the default ten neighbours: ValueError instead of a Reading Set. And a
  result that is not ranked by distance: the rows come back in input order, the farther
  station first.
\<close>

theorem nearest_k_counterexample:
  "find_nearby_monitors [near_station, far_station] boston 50 10 = Inl ValueError \<and>
   find_nearby_monitors [far_station, near_station] boston 50 2 = Inr [far_station, near_station] \<and>
   great_circle_km boston near_station < great_circle_km boston far_station"
proof (intro conjI)
  show "find_nearby_monitors [near_station, far_station] boston 50 10 = Inl ValueError"
    by (simp add: find_nearby_monitors_def two_stations station_ids fit_def check_array_def
          kneighbors_def latlons_def)
  have "find_nearby_monitors [far_station, near_station] boston 50 2 =
     Inr (filter (\<lambda>r. AQSID r \<in> AQSID ` set
            (filter (\<lambda>s. great_circle_km boston s \<le> 50)
               (take (nat 2)
                  (sort_key (great_circle_km boston) (drop_duplicates [] [far_station, near_station])))))
          [far_station, near_station])"
    by (rule find_nearby_monitors_closed) (simp_all add: two_stations station_ids)
  also have "sort_key (great_circle_km boston) (drop_duplicates [] [far_station, near_station]) =
      [near_station, far_station]"
    using km_order(1) by (simp add: two_stations station_ids)
  finally show "find_nearby_monitors [far_station, near_station] boston 50 2 =
      Inr [far_station, near_station]"
    by (simp add: km_order station_ids)
  show "great_circle_km boston near_station < great_circle_km boston far_station"
    by (rule km_order)
qed

lemma three_stations:
  "drop_duplicates [] [far_station, remote_station, near_station, far_station\<lparr>ValidTime := 14\<rparr>] =
     [far_station, remote_station, near_station]"
  by (simp add: near_station_def far_station_def remote_station_def station_def)

theorem nearest_k_mode_witness:
  "(1::int) \<le> 2 \<and>
   (\<exists>top sel res.
      find_nearby_monitors [far_station, remote_station, near_station, far_station\<lparr>ValidTime := 14\<rparr>]
        boston 50 2 = Inr res \<and>
      distinct (map AQSID (drop_duplicates []
        [far_station, remote_station, near_station, far_station\<lparr>ValidTime := 14\<rparr>])) \<and>
      AQSID ` set (drop_duplicates []
        [far_station, remote_station, near_station, far_station\<lparr>ValidTime := 14\<rparr>]) =
        AQSID ` set [far_station, remote_station, near_station, far_station\<lparr>ValidTime := 14\<rparr>] \<and>
      set top \<subseteq> set (drop_duplicates []
        [far_station, remote_station, near_station, far_station\<lparr>ValidTime := 14\<rparr>]) \<and>
      int (length top) = 2 \<and>
      distinct (map AQSID top) \<and>
      sorted (map (great_circle_km boston) top) \<and>
      (\<forall>u \<in> set (drop_duplicates []
          [far_station, remote_station, near_station, far_station\<lparr>ValidTime := 14\<rparr>]).
          u \<notin> set top \<longrightarrow>
          (\<forall>t \<in> set top. great_circle_km boston t \<le> great_circle_km boston u)) \<and>
      sel = filter (\<lambda>s. great_circle_km boston s \<le> 50) top \<and>
      sorted (map (great_circle_km boston) sel) \<and>
      res = filter (\<lambda>r. AQSID r \<in> AQSID ` set sel)
              [far_station, remote_station, near_station, far_station\<lparr>ValidTime := 14\<rparr>] \<and>
      int (card (AQSID ` set res)) \<le> 2)"
proof -
  have h1: "(1::int) \<le> 2" by simp
  have h2: "(2::int) \<le> int (length (drop_duplicates []
      [far_station, remote_station, near_station, far_station\<lparr>ValidTime := 14\<rparr>]))"
    by (simp add: three_stations station_ids)
  show ?thesis
    by (rule conjI [OF h1 nearest_k_mode [OF h1 h2, of boston 50]])
qed

section \<open>Properties of the Grid Index Codec\<close>

lemma idx_lookup_snoc: "idx_lookup (rows @ [r]) = (idx_lookup rows)(r \<mapsto> length rows)"
  by (simp add: idx_lookup_def enumerate_append_eq)

lemma idx_lookup_spec:
  "(k \<in> set rows \<longrightarrow> (\<exists>i<length rows. idx_lookup rows k = Some i \<and> rows ! i = k)) \<and>
   (k \<notin> set rows \<longrightarrow> idx_lookup rows k = None)"
proof (induction rows rule: rev_induct)
  case Nil
  then show ?case by (simp add: idx_lookup_def)
next
  case (snoc r rows)
  show ?case
  proof (cases "k = r")
    case True
    then show ?thesis by (auto simp: idx_lookup_snoc)
  next
    case False
    with snoc show ?thesis
      by (auto simp: idx_lookup_snoc nth_append less_Suc_eq)
  qed
qed

lemma round_half_even_close: "\<bar>of_int (round_half_even x) - x\<bar> \<le> 1 / 2"
proof -
  have lo: "of_int \<lfloor>x\<rfloor> \<le> x" and hi: "x < of_int \<lfloor>x\<rfloor> + 1"
    by linarith+
  show ?thesis
    using lo hi by (auto simp: round_half_even_def Let_def)
qed

lemma round_half_even_of_int: "round_half_even (of_int n) = n"
  by (simp add: round_half_even_def)

lemma round6_close: "\<bar>round6 x - x\<bar> \<le> 1 / 2000000"
proof -
  have "\<bar>of_int (round_half_even (x * 1000000)) - x * 1000000\<bar> \<le> 1 / 2"
    by (rule round_half_even_close)
  then have "\<bar>(of_int (round_half_even (x * 1000000)) - x * 1000000) / 1000000\<bar> \<le> (1 / 2) / 1000000"
    by (simp only: abs_divide) (simp add: divide_right_mono)
  then show ?thesis by (simp add: round6_def diff_divide_distrib)
qed

text \<open>
  A number with six decimals or fewer is its own rounding, and a tie goes to the even
  digit: \<open>42.0078125\<close> is printed as \<open>42.007812\<close> and \<open>42.0078135\<close> as \<open>42.007814\<close>.
\<close>

lemma round6_fixed: "round6 (of_int n / 1000000) = of_int n / 1000000"
  by (simp add: round6_def round_half_even_of_int)

lemma round6_tie_down: "round6 42.0078125 = 42.007812"
proof -
  have "(42.0078125 :: real) * 1000000 = of_int 42007812 + 1 / 2" by simp
  moreover have "round_half_even (of_int 42007812 + 1 / 2) = 42007812"
    by (simp add: round_half_even_def Let_def)
  ultimately show ?thesis by (simp add: round6_def)
qed

lemma round6_tie_up: "round6 42.0078135 = 42.007814"
proof -
  have "(42.0078135 :: real) * 1000000 = of_int 42007813 + 1 / 2" by simp
  moreover have "round_half_even (of_int 42007813 + 1 / 2) = 42007814"
    by (simp add: round_half_even_def Let_def)
  ultimately show ?thesis by (simp add: round6_def)
qed

lemma np_loadtxt_matrix: "2 \<le> length rows \<Longrightarrow> np_loadtxt rows = Array2 rows"
  by (cases rows) (auto simp: np_loadtxt_def split: list.splits)

lemma encode_closed:
  fixes e :: "'df Forecast"
  assumes "fs (latlon_idx_path e) = Some rows" "2 \<le> length rows" "covered rows prediction"
  shows "latlon_to_idx_convert set_list e fs (Located prediction) =
           Inr (fs, Indexed (map (encode_row rows) prediction))"
proof -
  have "mapE (\<lambda>r. case idx_lookup rows (round6 (Latitude r), round6 (Longitude r)) of
                    None \<Rightarrow> Inl KeyError
                  | Some i \<Rightarrow> Inr \<lparr>LatLonIdx = int i, idx_ValidTime = ValidTime r,
                                  idx_PM25 = PM25 r\<rparr>) prediction
        = Inr (map (encode_row rows) prediction)"
  proof (rule mapE_Inr)
    fix r assume "r \<in> set prediction"
    with assms(3) have "(round6 (Latitude r), round6 (Longitude r)) \<in> set rows"
      by (simp add: covered_def list_all_iff)
    with idx_lookup_spec [of "(round6 (Latitude r), round6 (Longitude r))" rows]
    obtain i where "idx_lookup rows (round6 (Latitude r), round6 (Longitude r)) = Some i"
      by blast
    then show "(case idx_lookup rows (round6 (Latitude r), round6 (Longitude r)) of
                    None \<Rightarrow> Inl KeyError
                  | Some i \<Rightarrow> Inr \<lparr>LatLonIdx = int i, idx_ValidTime = ValidTime r,
                                  idx_PM25 = PM25 r\<rparr>) = Inr (encode_row rows r)"
      by (simp add: encode_row_def)
  qed
  then show ?thesis
    using assms(1,2)
    by (simp add: latlon_to_idx_convert_def np_loadtxt_matrix enumerate_rows_def)
qed

lemma decode_closed:
  fixes e :: "'df Forecast"
  assumes "fs (latlon_idx_path e) = Some rows" "2 \<le> length rows" "covered rows prediction"
  shows "idx_to_latlon_convert e fs (Indexed (map (encode_row rows) prediction)) =
           Inr (Located (map rounded_row prediction))"
proof -
  let ?f = "\<lambda>r. case np_getitem rows (LatLonIdx r) of
                    Inl err \<Rightarrow> Inl err
                  | Inr latlon \<Rightarrow> Inr \<lparr>Latitude = fst latlon, Longitude = snd latlon,
                                       ValidTime = idx_ValidTime r, PM25 = idx_PM25 r\<rparr>"
  have each: "?f (encode_row rows r) = Inr (rounded_row r)" if "r \<in> set prediction" for r
  proof -
    from that assms(3) have "(round6 (Latitude r), round6 (Longitude r)) \<in> set rows"
      by (simp add: covered_def list_all_iff)
    with idx_lookup_spec [of "(round6 (Latitude r), round6 (Longitude r))" rows]
    obtain i where i: "i < length rows"
      "idx_lookup rows (round6 (Latitude r), round6 (Longitude r)) = Some i"
      "rows ! i = (round6 (Latitude r), round6 (Longitude r))"
      by blast
    then show ?thesis
      by (simp add: encode_row_def np_getitem_def rounded_row_def)
  qed
  have "mapE ?f (map (encode_row rows) prediction) = Inr (map rounded_row prediction)"
    using each
  proof (induction prediction)
    case Nil
    then show ?case by simp
  next
    case (Cons r rs)
    then have "mapE ?f (map (encode_row rows) rs) = Inr (map rounded_row rs)" by simp
    moreover have "?f (encode_row rows r) = Inr (rounded_row r)" using Cons.prems by simp
    ultimately show ?case by simp
  qed
  then show ?thesis
    using assms(1,2) by (simp add: idx_to_latlon_convert_def np_loadtxt_matrix)
qed

text \<open>
  Claim C4, amended. Against a persisted index file of at least two lines that holds the
  rounded coordinate pair of every row, encoding succeeds and leaves the file unchanged,
  decoding the encoded rows succeeds, and every decoded row carries the original row's
  coordinates rounded to six decimals (so within 1e-6 of them) with the same ValidTime
  and PM25. Two encodings against the same file, of the same or of another covered
  Reading Set, give rows with the same coordinates the same index.
\<close>

theorem grid_index_roundtrip:
  fixes e :: "'df Forecast"
  assumes "fs (latlon_idx_path e) = Some rows"
    and "2 \<le> length rows"
    and "covered rows prediction"
    and "covered rows prediction'"
  shows "\<exists>enc enc' dec.
     latlon_to_idx_convert set_list e fs (Located prediction) = Inr (fs, Indexed enc) \<and>
     latlon_to_idx_convert set_list e fs (Located prediction') = Inr (fs, Indexed enc') \<and>
     idx_to_latlon_convert e fs (Indexed enc) = Inr (Located dec) \<and>
     length enc = length prediction \<and> length dec = length prediction \<and>
     (\<forall>i<length prediction.
        \<bar>Latitude (dec ! i) - Latitude (prediction ! i)\<bar> \<le> 1 / 1000000 \<and>
        \<bar>Longitude (dec ! i) - Longitude (prediction ! i)\<bar> \<le> 1 / 1000000 \<and>
        Latitude (dec ! i) = round6 (Latitude (prediction ! i)) \<and>
        Longitude (dec ! i) = round6 (Longitude (prediction ! i)) \<and>
        ValidTime (dec ! i) = ValidTime (prediction ! i) \<and>
        PM25 (dec ! i) = PM25 (prediction ! i)) \<and>
     (\<forall>i<length prediction. \<forall>j<length prediction'.
        Latitude (prediction ! i) = Latitude (prediction' ! j) \<and>
        Longitude (prediction ! i) = Longitude (prediction' ! j) \<longrightarrow>
        LatLonIdx (enc ! i) = LatLonIdx (enc' ! j))"
proof -
  let ?enc = "map (encode_row rows) prediction"
  let ?enc' = "map (encode_row rows) prediction'"
  let ?dec = "map rounded_row prediction"
  have 1: "latlon_to_idx_convert set_list e fs (Located prediction) = Inr (fs, Indexed ?enc)"
    by (rule encode_closed [where fs = fs and e = e, OF assms(1,2,3)])
  have 2: "latlon_to_idx_convert set_list e fs (Located prediction') = Inr (fs, Indexed ?enc')"
    by (rule encode_closed [where fs = fs and e = e, OF assms(1,2,4)])
  have 3: "idx_to_latlon_convert e fs (Indexed ?enc) = Inr (Located ?dec)"
    by (rule decode_closed [where fs = fs and e = e, OF assms(1,2,3)])
  have close: "\<bar>round6 x - x\<bar> \<le> 1 / 1000000" for x
    using round6_close [of x] by simp
  have close2: "\<bar>round6 x - x\<bar> * 1000000 \<le> 1" for x
    using close [of x] by simp
  have 4: "\<forall>i<length prediction.
        \<bar>Latitude (?dec ! i) - Latitude (prediction ! i)\<bar> \<le> 1 / 1000000 \<and>
        \<bar>Longitude (?dec ! i) - Longitude (prediction ! i)\<bar> \<le> 1 / 1000000 \<and>
        Latitude (?dec ! i) = round6 (Latitude (prediction ! i)) \<and>
        Longitude (?dec ! i) = round6 (Longitude (prediction ! i)) \<and>
        ValidTime (?dec ! i) = ValidTime (prediction ! i) \<and>
        PM25 (?dec ! i) = PM25 (prediction ! i)"
    by (simp add: rounded_row_def close2)
  have 5: "\<forall>i<length prediction. \<forall>j<length prediction'.
        Latitude (prediction ! i) = Latitude (prediction' ! j) \<and>
        Longitude (prediction ! i) = Longitude (prediction' ! j) \<longrightarrow>
        LatLonIdx (?enc ! i) = LatLonIdx (?enc' ! j)"
    by (simp add: encode_row_def)
  show ?thesis
    apply (rule exI [of _ ?enc], rule exI [of _ ?enc'], rule exI [of _ ?dec])
    apply (intro conjI 1 2 3 4 5)
     apply simp_all
    done
qed

lemma round6_examples:
  "round6 42.36 = 42.36" "round6 42.56 = 42.56" "round6 43.36 = 43.36" "round6 (-71.06) = -71.06"
proof -
  have "round6 (of_int 42360000 / 1000000) = of_int 42360000 / 1000000"
       "round6 (of_int 42560000 / 1000000) = of_int 42560000 / 1000000"
       "round6 (of_int 43360000 / 1000000) = of_int 43360000 / 1000000"
       "round6 (of_int (- 71060000) / 1000000) = of_int (- 71060000) / 1000000"
    by (rule round6_fixed)+
  then show "round6 42.36 = 42.36" "round6 42.56 = 42.56" "round6 43.36 = 43.36"
    "round6 (-71.06) = -71.06"
    by simp_all
qed

lemma cell_rounded:
  "round6 (Latitude near_cell) = 42.36" "round6 (Longitude near_cell) = -71.06"
  "round6 (Latitude far_cell) = 42.56" "round6 (Longitude far_cell) = -71.06"
  "round6 (Latitude remote_cell) = 43.36" "round6 (Longitude remote_cell) = -71.06"
  by (simp_all only: near_cell_def far_cell_def remote_cell_def cell_def reading.select_convs
        round6_examples)

lemma example_index_covers:
  "covered example_index [near_cell, far_cell, near_cell]" "covered example_index [far_cell]"
  by (simp_all add: covered_def example_index_def cell_rounded)

theorem grid_index_roundtrip_witness:
  "[latlon_idx_path hrrr_entity \<mapsto> example_index] (latlon_idx_path hrrr_entity) = Some example_index \<and>
   2 \<le> length example_index \<and>
   covered example_index [near_cell, far_cell, near_cell] \<and>
   (\<exists>enc dec.
      latlon_to_idx_convert remdups hrrr_entity [latlon_idx_path hrrr_entity \<mapsto> example_index]
        (Located [near_cell, far_cell, near_cell]) =
        Inr ([latlon_idx_path hrrr_entity \<mapsto> example_index], Indexed enc) \<and>
      idx_to_latlon_convert hrrr_entity [latlon_idx_path hrrr_entity \<mapsto> example_index] (Indexed enc) =
        Inr (Located dec) \<and>
      length dec = length [near_cell, far_cell, near_cell] \<and>
      LatLonIdx (enc ! 0) = LatLonIdx (enc ! 2))"
proof -
  let ?fs = "[latlon_idx_path hrrr_entity \<mapsto> example_index]"
  let ?p = "[near_cell, far_cell, near_cell]"
  have h1: "?fs (latlon_idx_path hrrr_entity) = Some example_index" by simp
  have h2: "2 \<le> length example_index" by (simp add: example_index_def)
  note h3 = example_index_covers(1)
  from grid_index_roundtrip [where fs = ?fs and e = hrrr_entity and set_list = remdups,
      OF h1 h2 h3 h3]
  obtain enc enc' dec where r:
    "latlon_to_idx_convert remdups hrrr_entity ?fs (Located ?p) = Inr (?fs, Indexed enc)"
    "latlon_to_idx_convert remdups hrrr_entity ?fs (Located ?p) = Inr (?fs, Indexed enc')"
    "idx_to_latlon_convert hrrr_entity ?fs (Indexed enc) = Inr (Located dec)"
    "length dec = length ?p"
    "\<forall>i<length ?p. \<forall>j<length ?p.
        Latitude (?p ! i) = Latitude (?p ! j) \<and> Longitude (?p ! i) = Longitude (?p ! j) \<longrightarrow>
        LatLonIdx (enc ! i) = LatLonIdx (enc' ! j)"
    by blast
  from r(1,2) have "enc' = enc" by simp
  with r(5) have "LatLonIdx (enc ! 0) = LatLonIdx (enc ! 2)" by simp
  with h1 h2 h3 r(1,3,4) show ?thesis by blast
qed

text \<open>
  A Reading Set with a coordinate pair that the persisted index file does not hold:
  encoding raises KeyError.
\<close>

theorem grid_index_missing_coordinate_counterexample:
  "[latlon_idx_path hrrr_entity \<mapsto> example_index] (latlon_idx_path hrrr_entity) = Some example_index \<and>
   latlon_to_idx_convert remdups hrrr_entity [latlon_idx_path hrrr_entity \<mapsto> example_index]
     (Located [near_cell, remote_cell]) = Inl KeyError"
  by (simp add: latlon_to_idx_convert_def example_index_def np_loadtxt_def enumerate_rows_def
        idx_lookup_def cell_rounded)

text \<open>
  The first encoding, with no index file yet, builds the file from the Reading Set
  itself, whatever the order in which the unique pairs are listed; with one unique pair
  only, the file has a single line and the encoding raises IndexError.
\<close>

lemma first_encode_builds_index:
  fixes e :: "'df Forecast"
  assumes "fs (latlon_idx_path e) = None"
    and "set (set_list (map (\<lambda>r. (Latitude r, Longitude r)) prediction)) =
         set (map (\<lambda>r. (Latitude r, Longitude r)) prediction)"
    and "rows = map (\<lambda>(lat, lon). (round6 lat, round6 lon))
                  (set_list (map (\<lambda>r. (Latitude r, Longitude r)) prediction))"
    and "2 \<le> length rows"
  shows "latlon_to_idx_convert set_list e fs (Located prediction) =
           Inr (fs(latlon_idx_path e \<mapsto> rows), Indexed (map (encode_row rows) prediction))"
proof -
  let ?fs = "fs(latlon_idx_path e \<mapsto> rows)"
  have cov: "covered rows prediction"
    unfolding covered_def list_all_iff
  proof
    fix r assume "r \<in> set prediction"
    then have "(Latitude r, Longitude r) \<in> set (map (\<lambda>r. (Latitude r, Longitude r)) prediction)"
      by force
    with assms(2) have "(Latitude r, Longitude r)
        \<in> set (set_list (map (\<lambda>r. (Latitude r, Longitude r)) prediction))"
      by simp
    then show "(round6 (Latitude r), round6 (Longitude r)) \<in> set rows"
      unfolding assms(3) by force
  qed
  have "latlon_to_idx_convert set_list e fs (Located prediction) =
        latlon_to_idx_convert set_list e ?fs (Located prediction)"
    using assms(1,3) by (simp add: latlon_to_idx_convert_def build_latlon_idx_def)
  also have "\<dots> = Inr (?fs, Indexed (map (encode_row rows) prediction))"
    by (rule encode_closed [where fs = ?fs and e = e, OF _ assms(4) cov]) simp
  finally show ?thesis .
qed

lemma single_coordinate_index:
  "latlon_to_idx_convert remdups hrrr_entity Map.empty (Located [near_cell, near_cell]) =
     Inl IndexError"
  by (simp add: latlon_to_idx_convert_def build_latlon_idx_def np_loadtxt_def enumerate_rows_def
        near_cell_def cell_def)

section \<open>Properties of the raw-day cache\<close>

lemma datapath_same_identity: "same_identity e e' \<Longrightarrow> datapath e' = datapath e"
  by (simp add: same_identity_def datapath_def)

lemma latlon_idx_path_same_identity:
  "same_identity e e' \<Longrightarrow> latlon_idx_path e' = latlon_idx_path e"
  by (simp add: same_identity_def latlon_idx_path_def)

lemma idx_to_latlon_convert_same_identity:
  "same_identity e e' \<Longrightarrow> idx_to_latlon_convert e' fs raw = idx_to_latlon_convert e fs raw"
  by (simp add: idx_to_latlon_convert_def latlon_idx_path_same_identity)

lemma download_cached: "files w (datapath e) = Some c \<Longrightarrow> download io e w = Inr w"
  by (simp add: download_def HRRRForecast_download_def GenericForecast_download_def
        is_downloaded_def)

lemma np_getitem_in_range:
  "- int (length rows) \<le> i \<Longrightarrow> i < int (length rows) \<Longrightarrow>
   np_getitem rows i = Inr (rows ! wrap_index (length rows) i)"
  by (simp add: np_getitem_def wrap_index_def Let_def)

lemma decode_cached:
  fixes e :: "'df Forecast"
  assumes "fs (latlon_idx_path e) = Some lines" "index_holds lines rs"
  shows "idx_to_latlon_convert e fs (Indexed rs) = Inr (Located (map (decoded lines) rs))"
proof -
  have "mapE (\<lambda>r. case np_getitem lines (LatLonIdx r) of
                    Inl err \<Rightarrow> Inl err
                  | Inr latlon \<Rightarrow> Inr \<lparr>Latitude = fst latlon, Longitude = snd latlon,
                                       ValidTime = idx_ValidTime r, PM25 = idx_PM25 r\<rparr>) rs
        = Inr (map (decoded lines) rs)"
  proof (rule mapE_Inr)
    fix r assume "r \<in> set rs"
    with assms(2) have "- int (length lines) \<le> LatLonIdx r" "LatLonIdx r < int (length lines)"
      by (simp_all add: index_holds_def list_all_iff)
    then have "np_getitem lines (LatLonIdx r) = Inr (lines ! wrap_index (length lines) (LatLonIdx r))"
      by (rule np_getitem_in_range)
    then show "(case np_getitem lines (LatLonIdx r) of
                    Inl err \<Rightarrow> Inl err
                  | Inr latlon \<Rightarrow> Inr \<lparr>Latitude = fst latlon, Longitude = snd latlon,
                                       ValidTime = idx_ValidTime r, PM25 = idx_PM25 r\<rparr>)
               = Inr (decoded lines r)"
      by (simp add: decoded_def)
  qed
  moreover from assms(2) have "np_loadtxt lines = Array2 lines"
    by (simp add: index_holds_def np_loadtxt_matrix)
  ultimately show ?thesis
    using assms(1) by (simp add: idx_to_latlon_convert_def)
qed

lemma data_in_memory: "u_data e = Some d \<Longrightarrow> data io e w = Inr (d, e, w)"
  by (simp add: data_def HRRRForecast_data_def Forecast_data_def)

lemma data_cached_generic:
  assumes "files w (datapath e) = Some c" "read_csv io c = Inr raw" "u_data e = None"
    and "cls e \<noteq> HRRRForecast"
  shows "data io e w = Inr (raw, e\<lparr>u_data := Some raw\<rparr>, w)"
  using assms
  by (simp add: data_def Forecast_data_def download_cached [where c = c] pd_read_csv_def)

lemma data_cached_hrrr:
  assumes "files w (datapath e) = Some c" "read_csv io c = Inr (Indexed rs)" "u_data e = None"
    and "cls e = HRRRForecast"
    and "index_files w (latlon_idx_path e) = Some lines" "index_holds lines rs"
  shows "data io e w =
           Inr (Located (map (decoded lines) rs), e\<lparr>u_data := Some (Located (map (decoded lines) rs))\<rparr>, w)"
  using assms
  by (simp add: data_def HRRRForecast_data_def download_cached [where c = c] pd_read_csv_def
        decode_cached [where lines = lines])

text \<open>
  Claim C1, amended. Let the raw-day cache file of an entity exist and parse; for an
  entity of the HRRR class let it moreover hold the column LatLonIdx, and let the index
  file exist, have two lines or more and be addressed by every cached index. Then
  \<open>download\<close> leaves the world as it was, so no adapter is called and no file written;
  accessing \<open>data\<close> returns the frame read back (decoded through the index file for
  HRRR) and leaves the world as it was: on the entity itself, on the same entity again
  (which now holds the frame in memory), and on any fresh entity of the same class with
  the same name, date, location and data directory. All these accesses return the same
  Reading Set.
\<close>

theorem data_cached_no_download:
  fixes e :: "frame Forecast" and w :: "'csv world"
  assumes "files w (datapath e) = Some c"
    and "read_csv io c = Inr raw"
    and "u_data e = None"
    and "cls e = HRRRForecast \<longrightarrow>
           raw = Indexed rs \<and> index_files w (latlon_idx_path e) = Some lines \<and> index_holds lines rs"
  shows "let d = (if cls e = HRRRForecast then Located (map (decoded lines) rs) else raw) in
         download io e w = Inr w \<and>
         data io e w = Inr (d, e\<lparr>u_data := Some d\<rparr>, w) \<and>
         data io (e\<lparr>u_data := Some d\<rparr>) w = Inr (d, e\<lparr>u_data := Some d\<rparr>, w) \<and>
         (\<forall>e'. same_identity e e' \<and> u_data e' = None \<longrightarrow>
            data io e' w = Inr (d, e'\<lparr>u_data := Some d\<rparr>, w))"
proof (cases "cls e = HRRRForecast")
  case True
  let ?d = "Located (map (decoded lines) rs)"
  from True assms(4) have all: "raw = Indexed rs \<and>
      index_files w (latlon_idx_path e) = Some lines \<and> index_holds lines rs"
    by (rule rev_mp)
  from all have raw: "raw = Indexed rs" by (rule conjunct1)
  from all have idx: "index_files w (latlon_idx_path e) = Some lines" by blast
  from all have holds: "index_holds lines rs" by blast
  have 1: "download io e w = Inr w"
    using assms(1) by (rule download_cached)
  have rd: "read_csv io c = Inr (Indexed rs)"
    using assms(2) unfolding raw .
  have 2: "data io e w = Inr (?d, e\<lparr>u_data := Some ?d\<rparr>, w)"
    by (rule data_cached_hrrr [where c = c and lines = lines, OF assms(1) rd assms(3) True idx holds])
  have 3: "data io (e\<lparr>u_data := Some ?d\<rparr>) w = Inr (?d, e\<lparr>u_data := Some ?d\<rparr>, w)"
    by (rule data_in_memory) simp
  have 4: "data io e' w = Inr (?d, e'\<lparr>u_data := Some ?d\<rparr>, w)"
    if "same_identity e e'" "u_data e' = None" for e'
  proof -
    have p1: "datapath e' = datapath e"
      using that(1) by (rule datapath_same_identity)
    have p2: "latlon_idx_path e' = latlon_idx_path e"
      using that(1) by (rule latlon_idx_path_same_identity)
    from that(1) have "cls e = cls e'"
      unfolding same_identity_def by (rule conjunct1)
    with True have c: "cls e' = HRRRForecast" by simp
    have f: "files w (datapath e') = Some c" unfolding p1 by (rule assms(1))
    have i: "index_files w (latlon_idx_path e') = Some lines" unfolding p2 by (rule idx)
    show ?thesis
      by (rule data_cached_hrrr [where c = c and lines = lines, OF f rd that(2) c i holds])
  qed
  from 4 have 5: "\<forall>e'. same_identity e e' \<and> u_data e' = None \<longrightarrow>
      data io e' w = Inr (?d, e'\<lparr>u_data := Some ?d\<rparr>, w)"
    by blast
  show ?thesis
    unfolding Let_def if_P [OF True] by (intro conjI 1 2 3 5)
next
  case False
  have 1: "download io e w = Inr w"
    using assms(1) by (rule download_cached)
  have 2: "data io e w = Inr (raw, e\<lparr>u_data := Some raw\<rparr>, w)"
    by (rule data_cached_generic [where c = c, OF assms(1,2,3) False])
  have 3: "data io (e\<lparr>u_data := Some raw\<rparr>) w = Inr (raw, e\<lparr>u_data := Some raw\<rparr>, w)"
    by (rule data_in_memory) simp
  have 4: "data io e' w = Inr (raw, e'\<lparr>u_data := Some raw\<rparr>, w)"
    if "same_identity e e'" "u_data e' = None" for e'
  proof -
    have p1: "datapath e' = datapath e"
      using that(1) by (rule datapath_same_identity)
    from that(1) have "cls e = cls e'"
      unfolding same_identity_def by (rule conjunct1)
    with False have c: "cls e' \<noteq> HRRRForecast" by simp
    have f: "files w (datapath e') = Some c" unfolding p1 by (rule assms(1))
    show ?thesis
      by (rule data_cached_generic [where c = c, OF f assms(2) that(2) c])
  qed
  from 4 have 5: "\<forall>e'. same_identity e e' \<and> u_data e' = None \<longrightarrow>
      data io e' w = Inr (raw, e'\<lparr>u_data := Some raw\<rparr>, w)"
    by blast
  show ?thesis
    unfolding Let_def if_not_P [OF False] by (intro conjI 1 2 3 5)
qed

lemma cached_rows_decoded: "map (decoded example_index) cached_rows = [near_cell, far_cell]"
  by (simp add: decoded_def cached_rows_def example_index_def wrap_index_def near_cell_def
        far_cell_def cell_def)

lemma hrrr_entity_fields:
  "cls hrrr_entity = HRRRForecast" "u_data hrrr_entity = None"
  by (simp_all add: hrrr_entity_def entity_def new_forecast_def class_of_def)

theorem data_cached_no_download_witness:
  "files cached_world (datapath hrrr_entity) = Some (Indexed cached_rows) \<and>
   u_data hrrr_entity = None \<and>
   cls hrrr_entity = HRRRForecast \<and>
   index_files cached_world (latlon_idx_path hrrr_entity) = Some example_index \<and>
   index_holds example_index cached_rows \<and>
   download offline hrrr_entity cached_world = Inr cached_world \<and>
   data offline hrrr_entity cached_world =
     Inr (Located [near_cell, far_cell],
          hrrr_entity\<lparr>u_data := Some (Located [near_cell, far_cell])\<rparr>, cached_world) \<and>
   data offline (hrrr_entity\<lparr>u_data := Some (Located [near_cell, far_cell])\<rparr>) cached_world =
     Inr (Located [near_cell, far_cell],
          hrrr_entity\<lparr>u_data := Some (Located [near_cell, far_cell])\<rparr>, cached_world) \<and>
   data offline (new_forecast HRRRForecast ''hrrr'' example_day) cached_world =
     Inr (Located [near_cell, far_cell],
          (new_forecast HRRRForecast ''hrrr'' example_day)\<lparr>u_data := Some (Located [near_cell, far_cell])\<rparr>,
          cached_world)"
proof -
  have h1: "files cached_world (datapath hrrr_entity) = Some (Indexed cached_rows)"
    by (simp add: cached_world_def)
  have h2: "read_csv offline (Indexed cached_rows) = Inr (Indexed cached_rows)"
    by (simp add: offline_def)
  note h3 = hrrr_entity_fields(2)
  have i1: "index_files cached_world (latlon_idx_path hrrr_entity) = Some example_index"
    by (simp add: cached_world_def)
  have i2: "index_holds example_index cached_rows"
    by (simp add: index_holds_def example_index_def cached_rows_def)
  have h4: "cls hrrr_entity = HRRRForecast \<longrightarrow>
      Indexed cached_rows = Indexed cached_rows \<and>
      index_files cached_world (latlon_idx_path hrrr_entity) = Some example_index \<and>
      index_holds example_index cached_rows"
    using i1 i2 by simp
  have fresh: "same_identity hrrr_entity (new_forecast HRRRForecast ''hrrr'' example_day) \<and>
      u_data (new_forecast HRRRForecast ''hrrr'' example_day :: frame Forecast) = None"
    by (simp add: same_identity_def hrrr_entity_def entity_def new_forecast_def class_of_def)
  from data_cached_no_download [where io = offline and e = hrrr_entity and w = cached_world
      and lines = example_index and rs = cached_rows, OF h1 h2 h3 h4]
  have r: "download offline hrrr_entity cached_world = Inr cached_world"
    "data offline hrrr_entity cached_world =
       Inr (Located [near_cell, far_cell],
            hrrr_entity\<lparr>u_data := Some (Located [near_cell, far_cell])\<rparr>, cached_world)"
    "data offline (hrrr_entity\<lparr>u_data := Some (Located [near_cell, far_cell])\<rparr>) cached_world =
       Inr (Located [near_cell, far_cell],
            hrrr_entity\<lparr>u_data := Some (Located [near_cell, far_cell])\<rparr>, cached_world)"
    "\<forall>e'. same_identity hrrr_entity e' \<and> u_data e' = None \<longrightarrow>
        data offline e' cached_world =
          Inr (Located [near_cell, far_cell], e'\<lparr>u_data := Some (Located [near_cell, far_cell])\<rparr>,
               cached_world)"
    by (simp_all add: Let_def hrrr_entity_fields(1) cached_rows_decoded)
  from r(4) fresh have r5: "data offline (new_forecast HRRRForecast ''hrrr'' example_day) cached_world =
     Inr (Located [near_cell, far_cell],
          (new_forecast HRRRForecast ''hrrr'' example_day)\<lparr>u_data := Some (Located [near_cell, far_cell])\<rparr>,
          cached_world)"
    by blast
  from h1 h3 hrrr_entity_fields(1) i1 i2 r(1,2,3) r5 show ?thesis by blast
qed

text \<open>
  The cache file of an HRRR entity exists, the index file does not: nothing is
  downloaded, and the access raises FileNotFoundError instead of returning a Reading Set.
\<close>

theorem data_cached_missing_index_counterexample:
  "files unindexed_world (datapath hrrr_entity) = Some (Indexed cached_rows) \<and>
   u_data hrrr_entity = None \<and>
   download offline hrrr_entity unindexed_world = Inr unindexed_world \<and>
   data offline hrrr_entity unindexed_world = Inl FileNotFoundError"
  by (simp add: unindexed_world_def cached_world_def hrrr_entity_fields data_def
        HRRRForecast_data_def download_def HRRRForecast_download_def is_downloaded_def
        pd_read_csv_def offline_def idx_to_latlon_convert_def)

text \<open>An entity of a generic class.\<close>

lemma data_cached_airnow_example:
  "data offline airnow_entity airnow_world =
     Inr (Located [row 13 50, row 14 10],
          airnow_entity\<lparr>u_data := Some (Located [row 13 50, row 14 10])\<rparr>, airnow_world)"
  by (simp add: airnow_world_def airnow_entity_def entity_def new_forecast_def class_of_def
        data_def Forecast_data_def download_def GenericForecast_download_def is_downloaded_def
        pd_read_csv_def offline_def)

text \<open>
  The state after any first access that has succeeded, whether it downloaded or not:
  the entity answers from memory, and a fresh entity of the same identity reads the
  same frame back without a download.
\<close>

lemma HRRRForecast_data_Inr:
  assumes "u_data e = None" and "HRRRForecast_data io e w = Inr (d, e1, w1)"
  shows "\<exists>c raw. files w1 (datapath e) = Some c \<and> read_csv io c = Inr raw \<and>
           idx_to_latlon_convert e (index_files w1) raw = Inr d \<and> e1 = e\<lparr>u_data := Some d\<rparr>"
proof (cases "download io e w")
  case (Inl err)
  with assms show ?thesis by (simp add: HRRRForecast_data_def)
next
  case (Inr w')
  show ?thesis
  proof (cases "files w' (datapath e)")
    case None
    with assms Inr show ?thesis by (simp add: HRRRForecast_data_def pd_read_csv_def)
  next
    case (Some c)
    show ?thesis
    proof (cases "read_csv io c")
      case (Inl err)
      with assms Inr Some show ?thesis by (simp add: HRRRForecast_data_def pd_read_csv_def)
    next
      case raw: (Inr raw)
      show ?thesis
      proof (cases "idx_to_latlon_convert e (index_files w') raw")
        case (Inl err)
        with assms Inr Some raw show ?thesis
          by (simp add: HRRRForecast_data_def pd_read_csv_def)
      next
        case dec: (Inr d')
        with assms Inr Some raw have "d' = d" "e1 = e\<lparr>u_data := Some d\<rparr>" "w' = w1"
          by (auto simp: HRRRForecast_data_def pd_read_csv_def)
        with Some raw dec show ?thesis by blast
      qed
    qed
  qed
qed

lemma Forecast_data_Inr:
  assumes "u_data e = None" and "Forecast_data io e w = Inr (d, e1, w1)"
  shows "\<exists>c. files w1 (datapath e) = Some c \<and> read_csv io c = Inr d \<and>
           e1 = e\<lparr>u_data := Some d\<rparr>"
proof (cases "download io e w")
  case (Inl err)
  with assms show ?thesis by (simp add: Forecast_data_def)
next
  case (Inr w')
  show ?thesis
  proof (cases "files w' (datapath e)")
    case None
    with assms Inr show ?thesis by (simp add: Forecast_data_def pd_read_csv_def)
  next
    case (Some c)
    show ?thesis
    proof (cases "read_csv io c")
      case (Inl err)
      with assms Inr Some show ?thesis by (simp add: Forecast_data_def pd_read_csv_def)
    next
      case raw: (Inr raw)
      with assms Inr Some have "raw = d" "e1 = e\<lparr>u_data := Some d\<rparr>" "w' = w1"
        by (auto simp: Forecast_data_def pd_read_csv_def)
      with Some raw show ?thesis by blast
    qed
  qed
qed

lemma data_after_first_access:
  fixes e :: "frame Forecast" and w :: "'csv world"
  assumes "u_data e = None"
    and "data io e w = Inr (d, e1, w1)"
  shows "data io e1 w1 = Inr (d, e1, w1) \<and>
         (\<forall>e'. same_identity e e' \<and> u_data e' = None \<longrightarrow>
            data io e' w1 = Inr (d, e'\<lparr>u_data := Some d\<rparr>, w1))"
proof (cases "cls e = HRRRForecast")
  case True
  with assms(2) have "HRRRForecast_data io e w = Inr (d, e1, w1)" by (simp add: data_def)
  from HRRRForecast_data_Inr [OF assms(1) this]
  obtain c raw where c: "files w1 (datapath e) = Some c" and raw: "read_csv io c = Inr raw"
    and dec: "idx_to_latlon_convert e (index_files w1) raw = Inr d"
    and e1: "e1 = e\<lparr>u_data := Some d\<rparr>"
    by blast
  have again: "data io e1 w1 = Inr (d, e1, w1)"
    unfolding e1 by (rule data_in_memory) simp
  have fresh: "data io e' w1 = Inr (d, e'\<lparr>u_data := Some d\<rparr>, w1)"
    if "same_identity e e'" "u_data e' = None" for e'
  proof -
    have p1: "datapath e' = datapath e"
      using that(1) by (rule datapath_same_identity)
    from that(1) have "cls e = cls e'"
      unfolding same_identity_def by (rule conjunct1)
    with True have k: "cls e' = HRRRForecast" by simp
    have f: "files w1 (datapath e') = Some c" unfolding p1 by (rule c)
    have dl: "download io e' w1 = Inr w1"
      using f by (rule download_cached)
    have dec': "idx_to_latlon_convert e' (index_files w1) raw = Inr d"
      unfolding idx_to_latlon_convert_same_identity [OF that(1)] by (rule dec)
    show ?thesis
      using k that(2) dl f raw dec'
      by (simp add: data_def HRRRForecast_data_def pd_read_csv_def)
  qed
  from again fresh show ?thesis by blast
next
  case False
  with assms(2) have "Forecast_data io e w = Inr (d, e1, w1)" by (simp add: data_def)
  from Forecast_data_Inr [OF assms(1) this]
  obtain c where c: "files w1 (datapath e) = Some c" and raw: "read_csv io c = Inr d"
    and e1: "e1 = e\<lparr>u_data := Some d\<rparr>"
    by blast
  have again: "data io e1 w1 = Inr (d, e1, w1)"
    unfolding e1 by (rule data_in_memory) simp
  have fresh: "data io e' w1 = Inr (d, e'\<lparr>u_data := Some d\<rparr>, w1)"
    if "same_identity e e'" "u_data e' = None" for e'
  proof -
    have p1: "datapath e' = datapath e"
      using that(1) by (rule datapath_same_identity)
    from that(1) have "cls e = cls e'"
      unfolding same_identity_def by (rule conjunct1)
    with False have k: "cls e' \<noteq> HRRRForecast" by simp
    have f: "files w1 (datapath e') = Some c" unfolding p1 by (rule c)
    show ?thesis
      by (rule data_cached_generic [where c = c, OF f raw that(2) k])
  qed
  from again fresh show ?thesis by blast
qed

text \<open>
  The state that the theorem asks for is the one the program leaves: two entities that
  \<open>build_forecast\<close> makes for the same name, date, location and data directory have
  the same identity, and a download of the HRRR class writes rows that the index file
  holds.
\<close>

lemma build_forecast_same_identity:
  assumes "dd_date d = dd_date d'" "location_name d = location_name d'"
    and "dd_data_directory d = dd_data_directory d'"
    and "build_forecast d n = Inr e" "build_forecast d' n = Inr e'"
  shows "same_identity e e'"
  using assms
  by (auto simp: build_forecast_def new_forecast_def same_identity_def split: if_splits)

lemma encoded_rows_hold:
  assumes "2 \<le> length rows" "covered rows prediction"
  shows "index_holds rows (map (encode_row rows) prediction)"
proof -
  have "- int (length rows) \<le> LatLonIdx (encode_row rows r) \<and>
        LatLonIdx (encode_row rows r) < int (length rows)"
    if "r \<in> set prediction" for r
  proof -
    from that assms(2) have "(round6 (Latitude r), round6 (Longitude r)) \<in> set rows"
      by (simp add: covered_def list_all_iff)
    with idx_lookup_spec [of "(round6 (Latitude r), round6 (Longitude r))" rows]
    obtain i where "i < length rows"
      "idx_lookup rows (round6 (Latitude r), round6 (Longitude r)) = Some i"
      by blast
    then show ?thesis by (simp add: encode_row_def)
  qed
  with assms(1) show ?thesis
    by (simp add: index_holds_def list_all_iff)
qed

lemma HRRRForecast_download_writes:
  fixes e :: "frame Forecast" and w :: "'csv world"
  assumes "files w (datapath e) = None" "cls e = HRRRForecast"
    and "hrrr_data_download io (date_of e) (w\<lparr>adapter_calls := Suc (adapter_calls w)\<rparr>) =
           Inr (Located rs, w')"
    and "index_files w' (latlon_idx_path e) = Some rows" "2 \<le> length rows" "covered rows rs"
  shows "download io e w =
           Inr (w'\<lparr>files := (files w')(datapath e \<mapsto> to_csv io (Indexed (map (encode_row rows) rs))),
                   index_files := index_files w'\<rparr>)"
proof -
  have enc: "latlon_to_idx_convert (list_of_set io) e (index_files w') (Located rs) =
      Inr (index_files w', Indexed (map (encode_row rows) rs))"
    by (rule encode_closed [where fs = "index_files w'" and e = e, OF assms(4,5,6)])
  show ?thesis
    using assms(1,2,3) enc
    by (simp add: download_def HRRRForecast_download_def is_downloaded_def)
qed

end
